theory Spec2Isabelle
  imports Main
begin

section \<open>Python strings and paths\<close>

text \<open>
  \<^verbatim>\<open>str.split(sep)\<close> for a one-character separator: every occurrence of the separator
  ends a piece, so the result has one more piece than there are separators, and the
  empty string splits into one empty piece.
\<close>

fun split :: "char \<Rightarrow> string \<Rightarrow> string list" where
  "split sep [] = [[]]"
| "split sep (c # cs) =
     (if c = sep then [] # split sep cs
      else (case split sep cs of
              [] \<Rightarrow> [[c]]
            | w # ws \<Rightarrow> (c # w) # ws))"

text \<open>\<^verbatim>\<open>sep.join(xs)\<close>.\<close>

fun join :: "string \<Rightarrow> string list \<Rightarrow> string" where
  "join sep [] = []"
| "join sep [x] = x"
| "join sep (x # y # ys) = x @ sep @ join sep (y # ys)"

text \<open>
  \<^verbatim>\<open>os.path.basename\<close> and \<^verbatim>\<open>os.path.join\<close> of \<^verbatim>\<open>posixpath\<close>: the basename is what
  follows the last slash; a joined component that starts with a slash replaces what
  came before it, otherwise it is appended after exactly one slash.
\<close>

definition basename :: "string \<Rightarrow> string" where
  "basename p = rev (takeWhile (\<lambda>c. c \<noteq> CHR ''/'') (rev p))"

definition join2 :: "string \<Rightarrow> string \<Rightarrow> string" where
  "join2 path b =
     (if b \<noteq> [] \<and> hd b = CHR ''/'' then b
      else if path = [] \<or> last path = CHR ''/'' then path @ b
      else path @ ''/'' @ b)"

definition path_join :: "string \<Rightarrow> string list \<Rightarrow> string" where
  "path_join a p = foldl join2 a p"

text \<open>\<^verbatim>\<open>str(i)\<close> of an integer: decimal digits, a minus sign for a negative number.\<close>

definition digit_char :: "nat \<Rightarrow> char" where
  "digit_char d = char_of (48 + d)"

fun digits :: "nat \<Rightarrow> string" where
  "digits n = (if n < 10 then [digit_char n] else digits (n div 10) @ [digit_char (n mod 10)])"

declare digits.simps [simp del]

definition str_int :: "int \<Rightarrow> string" where
  "str_int i = (if i < 0 then CHR ''-'' # digits (nat (- i)) else digits (nat i))"

text \<open>Reading a decimal number back, as \<^verbatim>\<open>int(s)\<close> does for the output of \<^verbatim>\<open>str\<close>.\<close>

definition digit_value :: "char \<Rightarrow> nat" where
  "digit_value c = of_char c - 48"

definition nat_of_digits :: "string \<Rightarrow> nat" where
  "nat_of_digits s = foldl (\<lambda>a c. 10 * a + digit_value c) 0 s"

definition int_of_str :: "string \<Rightarrow> int" where
  "int_of_str s =
     (case s of
        [] \<Rightarrow> 0
      | c # cs \<Rightarrow> if c = CHR ''-'' then - int (nat_of_digits cs) else int (nat_of_digits s))"

section \<open>The data model (processing/models.py)\<close>

type_synonym bytes = string

record ProcessingRequest =
  request_pk :: nat
  request_id :: string
  created_at :: nat
  completed :: bool
  result_file :: "string option"

record Product =
  product_pk :: nat
  request :: nat
  serial_number :: int
  name :: string
  input_image_urls :: string
  output_image_urls :: string
  processed :: bool

text \<open>
  The record store and the file store. Both tables are kept in primary-key order, the
  order in which rows were inserted, and a queryset is read in that order. \<open>files\<close>
  lists the files written, oldest first, each with its path and content.
\<close>

record world =
  requests :: "ProcessingRequest list"
  products :: "Product list"
  files :: "(string \<times> bytes) list"

section \<open>The collaborators of the task\<close>

text \<open>
  The exceptions that travel through \<^verbatim>\<open>processing/tasks.py\<close>. \<open>ValueError\<close> is what the
  task raises itself; \<open>UnboundLocalError\<close> is what Python raises on reading a local
  variable before its first assignment; \<open>DatabaseError\<close> and \<open>OSError\<close> come from the
  record store and the operating system; \<open>TypeError\<close> is what a call with a keyword
  argument the callee does not take raises.
\<close>

datatype exn = ValueError | UnboundLocalError | DatabaseError | OSError | TypeError

datatype 'a outcome = Return 'a | Raise exn

text \<open>
  What \<^verbatim>\<open>Image.open(BytesIO(content))\<close> followed by \<^verbatim>\<open>img.save(img_io, format=img.format,
  quality=50)\<close> does with the fetched bytes. Pillow reports bytes it cannot identify as
  an image with \<^verbatim>\<open>PIL.UnidentifiedImageError\<close>, a subclass of \<^verbatim>\<open>OSError\<close>, and an image
  it cannot write in its format with \<^verbatim>\<open>OSError\<close>; both are \<open>PIL_OSError\<close>. Every other
  failure (\<^verbatim>\<open>KeyError\<close>, \<^verbatim>\<open>ValueError\<close>, \<^verbatim>\<open>DecompressionBombError\<close>, ...) is an
  \<^verbatim>\<open>Exception\<close> outside \<^verbatim>\<open>OSError\<close>: \<open>PIL_Exception\<close>.
\<close>

datatype pil_outcome = Recompressed bytes | PIL_OSError | PIL_Exception

text \<open>
  The settings and the outside world, as the task sees them:
  \<^item> \<open>MEDIA_ROOT\<close>, \<open>MEDIA_URL\<close>: the two Django settings the task reads;
  \<^item> \<open>requests_get url\<close>: \<^verbatim>\<open>requests.get(url)\<close> and \<^verbatim>\<open>raise_for_status()\<close>; \<open>None\<close> is a
    \<^verbatim>\<open>requests.RequestException\<close>, \<open>Some content\<close> the body of the response;
  \<^item> \<open>image_recompress\<close>: Pillow, as above;
  \<^item> \<open>file_write path data\<close>: \<^verbatim>\<open>open(path, "wb")\<close> and \<^verbatim>\<open>f.write(data)\<close>; \<open>False\<close> is an
    \<^verbatim>\<open>OSError\<close>;
  \<^item> \<open>makedirs_ok\<close>: \<^verbatim>\<open>os.makedirs(output_directory, exist_ok=True)\<close> succeeds;
  \<^item> \<open>product_save_ok p\<close>: \<^verbatim>\<open>product.save()\<close> succeeds (\<open>False\<close> is a database error);
  \<^item> \<open>storage_save name content\<close>: the file storage behind \<^verbatim>\<open>result_file.save\<close>; it
    returns the name it stored the content under, or fails;
  \<^item> \<open>request_save_ok r\<close>: saving the \<^verbatim>\<open>ProcessingRequest\<close> row succeeds.
\<close>

record env =
  MEDIA_ROOT :: string
  MEDIA_URL :: string
  requests_get :: "string \<Rightarrow> bytes option"
  image_recompress :: "bytes \<Rightarrow> pil_outcome"
  file_write :: "string \<Rightarrow> bytes \<Rightarrow> bool"
  makedirs_ok :: bool
  product_save_ok :: "Product \<Rightarrow> bool"
  storage_save :: "string \<Rightarrow> bytes \<Rightarrow> string option"
  request_save_ok :: "ProcessingRequest \<Rightarrow> bool"

section \<open>ImageProcessingTask (processing/tasks.py)\<close>

definition output_directory :: "env \<Rightarrow> string" where
  "output_directory e = path_join (MEDIA_ROOT e) [''processed_images'']"

definition compressed_name :: "string \<Rightarrow> string" where
  "compressed_name url = ''compressed_'' @ basename url"

definition image_url :: "env \<Rightarrow> string \<Rightarrow> string" where
  "image_url e url = path_join (MEDIA_URL e) [''processed_images'', compressed_name url]"

text \<open>
  The inner loop of \<^verbatim>\<open>process_images\<close>, over the URLs of one product. \<open>fn\<close> is the
  local variable \<^verbatim>\<open>filename\<close>: \<open>None\<close> until its first assignment, and, being a local
  of the whole method, still bound when the next URL or the next product is reached.
  \<open>outs\<close> is \<^verbatim>\<open>output_urls\<close>, \<open>fs\<close> the files written so far.

  The three handlers, in the order Python tries them: a \<^verbatim>\<open>RequestException\<close> raises
  \<open>ValueError\<close>; an \<^verbatim>\<open>IOError\<close> (Python 3's \<^verbatim>\<open>OSError\<close>) formats a message that reads
  \<^verbatim>\<open>filename\<close> and raises \<open>ValueError\<close>; any other exception is logged and the loop
  goes on with the next URL.
\<close>

fun process_urls ::
  "env \<Rightarrow> string list \<Rightarrow> string option \<Rightarrow> string list \<Rightarrow> (string \<times> bytes) list
    \<Rightarrow> (string option \<times> string list) outcome \<times> (string \<times> bytes) list"
where
  "process_urls e [] fn outs fs = (Return (fn, outs), fs)"
| "process_urls e (url # urls) fn outs fs =
     (case requests_get e url of
        None \<Rightarrow> (Raise ValueError, fs)
      | Some content \<Rightarrow>
          (case image_recompress e content of
             PIL_OSError \<Rightarrow>
               (case fn of
                  None \<Rightarrow> (Raise UnboundLocalError, fs)
                | Some f \<Rightarrow> (Raise ValueError, fs))
           | PIL_Exception \<Rightarrow> process_urls e urls fn outs fs
           | Recompressed data \<Rightarrow>
               (let filename = compressed_name url;
                    file_path = path_join (output_directory e) [filename]
                in if \<not> file_write e file_path data then (Raise ValueError, fs)
                   else process_urls e urls (Some filename) (outs @ [image_url e url])
                          (fs @ [(file_path, data)]))))"

text \<open>\<^verbatim>\<open>product.save()\<close>: the row with the product's primary key takes the object's fields.\<close>

definition save_product :: "Product \<Rightarrow> Product list \<Rightarrow> Product list" where
  "save_product p ps = map (\<lambda>q. if product_pk q = product_pk p then p else q) ps"

text \<open>One row of \<^verbatim>\<open>output_data\<close>: the four values of the dictionary, in column order.\<close>

type_synonym summary_row = "int \<times> string \<times> string \<times> string"

definition summary_of :: "Product \<Rightarrow> summary_row" where
  "summary_of p = (serial_number p, name p, input_image_urls p, output_image_urls p)"

text \<open>
  The outer loop, over the products of the request. A product whose URLs were all
  attempted gets its joined output URLs and \<open>processed = True\<close>, is saved, and adds a
  row to \<^verbatim>\<open>output_data\<close>; \<^verbatim>\<open>product.save()\<close> stands outside every \<^verbatim>\<open>try\<close>.
\<close>

fun process_products ::
  "env \<Rightarrow> Product list \<Rightarrow> string option \<Rightarrow> summary_row list \<Rightarrow> world
    \<Rightarrow> (string option \<times> summary_row list) outcome \<times> world"
where
  "process_products e [] fn output_data w = (Return (fn, output_data), w)"
| "process_products e (product # rest) fn output_data w =
     (case process_urls e (split CHR '','' (input_image_urls product)) fn [] (files w) of
        (Raise x, fs) \<Rightarrow> (Raise x, w\<lparr>files := fs\<rparr>)
      | (Return (fn', output_urls), fs) \<Rightarrow>
          (let product' = product\<lparr>output_image_urls := join '','' output_urls,
                                   processed := True\<rparr>
           in if \<not> product_save_ok e product' then (Raise DatabaseError, w\<lparr>files := fs\<rparr>)
              else process_products e rest fn' (output_data @ [summary_of product'])
                     (w\<lparr>files := fs, products := save_product product' (products w)\<rparr>)))"

section \<open>The csv module: the writer\<close>

text \<open>
  \<^verbatim>\<open>csv.DictWriter\<close> with its default dialect (\<^verbatim>\<open>excel\<close>): fields are separated by a
  comma, a row ends with carriage return and line feed, and a field is put in double
  quotes, with every double quote in it doubled, exactly when it contains a comma, a
  double quote, a carriage return or a line feed (\<^verbatim>\<open>QUOTE_MINIMAL\<close>). A row that is
  one empty field is written as two double quotes.
\<close>

abbreviation DQ :: char where "DQ \<equiv> CHR 0x22"
abbreviation CR :: char where "CR \<equiv> CHR 0x0D"
abbreviation LF :: char where "LF \<equiv> CHR 0x0A"

definition special :: "char \<Rightarrow> bool" where
  "special c = (c = CHR '','' \<or> c = DQ \<or> c = CR \<or> c = LF)"

fun escape :: "string \<Rightarrow> string" where
  "escape [] = []"
| "escape (c # cs) = (if c = DQ then DQ # DQ # escape cs else c # escape cs)"

definition write_field :: "string \<Rightarrow> string" where
  "write_field f = (if list_ex special f then DQ # escape f @ [DQ] else f)"

definition writerow :: "string list \<Rightarrow> string" where
  "writerow fs =
     (if fs = [[]] then [DQ, DQ, CR, LF]
      else join '','' (map write_field fs) @ [CR, LF])"

definition fieldnames :: "string list" where
  "fieldnames = [''Serial Number'', ''Product Name'', ''Input Image Urls'', ''Output Image Urls'']"

text \<open>The values of one \<^verbatim>\<open>output_data\<close> dictionary as the writer prints them.\<close>

fun row_fields :: "summary_row \<Rightarrow> string list" where
  "row_fields (sn, nm, ins, outs) = [str_int sn, nm, ins, outs]"

text \<open>\<^verbatim>\<open>writeheader()\<close> and \<^verbatim>\<open>writerows(output_data)\<close> into the \<^verbatim>\<open>StringIO\<close>.\<close>

definition csv_file_content :: "summary_row list \<Rightarrow> string" where
  "csv_file_content output_data =
     writerow fieldnames @ concat (map (\<lambda>r. writerow (row_fields r)) output_data)"

section \<open>The rest of the task\<close>

text \<open>\<^verbatim>\<open>processing_request.save()\<close>: the row with the object's primary key takes its fields.\<close>

definition save_request :: "ProcessingRequest \<Rightarrow> ProcessingRequest list \<Rightarrow> ProcessingRequest list" where
  "save_request r rs = map (\<lambda>q. if request_pk q = request_pk r then r else q) rs"

text \<open>
  \<^verbatim>\<open>generate_csv\<close>: the content goes to the file storage, the stored name into the
  object's \<^verbatim>\<open>result_file\<close>, and the object is saved (\<^verbatim>\<open>save=True\<close>). Whatever fails is
  raised again as \<open>ValueError\<close>. \<open>self\<close> is \<^verbatim>\<open>self.processing_request\<close>, the object read
  when the task was built.
\<close>

definition generate_csv ::
  "env \<Rightarrow> ProcessingRequest \<Rightarrow> summary_row list \<Rightarrow> world \<Rightarrow> ProcessingRequest outcome \<times> world"
where
  "generate_csv e self output_data w =
     (let csv_content = csv_file_content output_data
      in case storage_save e ''results/result_file.csv'' csv_content of
           None \<Rightarrow> (Raise ValueError, w)
         | Some stored \<Rightarrow>
             (let self' = self\<lparr>result_file := Some stored\<rparr>;
                  w' = w\<lparr>files := files w @ [(stored, csv_content)]\<rparr>
              in if \<not> request_save_ok e self' then (Raise ValueError, w')
                 else (Return self', w'\<lparr>requests := save_request self' (requests w')\<rparr>)))"

text \<open>\<^verbatim>\<open>complete_request\<close>: set the flag on the object and save it.\<close>

definition complete_request ::
  "env \<Rightarrow> ProcessingRequest \<Rightarrow> world \<Rightarrow> ProcessingRequest outcome \<times> world"
where
  "complete_request e self w =
     (let self' = self\<lparr>completed := True\<rparr>
      in if \<not> request_save_ok e self' then (Raise ValueError, w)
         else (Return self', w\<lparr>requests := save_request self' (requests w)\<rparr>))"

text \<open>\<^verbatim>\<open>self.processing_request.product_set.all()\<close>.\<close>

definition product_set :: "ProcessingRequest \<Rightarrow> world \<Rightarrow> Product list" where
  "product_set r w = filter (\<lambda>p. request p = request_pk r) (products w)"

text \<open>
  \<^verbatim>\<open>process_images\<close>: the loop over the products, then \<^verbatim>\<open>generate_csv\<close>, then
  \<^verbatim>\<open>complete_request\<close>, the last two each in a \<^verbatim>\<open>try\<close> that turns any exception into
  \<open>ValueError\<close>.
\<close>

definition process_images :: "env \<Rightarrow> ProcessingRequest \<Rightarrow> world \<Rightarrow> unit outcome \<times> world" where
  "process_images e self w =
     (case process_products e (product_set self w) None [] w of
        (Raise x, w1) \<Rightarrow> (Raise x, w1)
      | (Return (fn, output_data), w1) \<Rightarrow>
          (case generate_csv e self output_data w1 of
             (Raise x, w2) \<Rightarrow> (Raise ValueError, w2)
           | (Return self1, w2) \<Rightarrow>
               (case complete_request e self1 w2 of
                  (Raise x, w3) \<Rightarrow> (Raise ValueError, w3)
                | (Return self2, w3) \<Rightarrow> (Return (), w3))))"

text \<open>
  \<^verbatim>\<open>ImageProcessingTask(request_id)\<close>: an unknown request id is a \<open>ValueError\<close>; then the
  output directory is made.
\<close>

definition init :: "env \<Rightarrow> string \<Rightarrow> world \<Rightarrow> ProcessingRequest outcome" where
  "init e rid w =
     (case find (\<lambda>r. request_id r = rid) (requests w) of
        None \<Rightarrow> Raise ValueError
      | Some r \<Rightarrow> if makedirs_ok e then Return r else Raise OSError)"

text \<open>\<^verbatim>\<open>run\<close>: build the task and process; \<^verbatim>\<open>except ValueError\<close> logs and returns.\<close>

definition catch_ValueError :: "'a outcome \<Rightarrow> unit outcome" where
  "catch_ValueError r =
     (case r of Return v \<Rightarrow> Return () | Raise x \<Rightarrow> if x = ValueError then Return () else Raise x)"

definition run :: "env \<Rightarrow> string \<Rightarrow> world \<Rightarrow> unit outcome \<times> world" where
  "run e rid w =
     (case init e rid w of
        Raise x \<Rightarrow> (catch_ValueError (Raise x :: unit outcome), w)
      | Return self \<Rightarrow>
          (case process_images e self w of (r, w') \<Rightarrow> (catch_ValueError r, w')))"

section \<open>The csv module: the reader\<close>

text \<open>
  \<^verbatim>\<open>csv.reader\<close> with the same dialect, after the state machine of CPython's
  \<^verbatim>\<open>_csv.c\<close> (\<^verbatim>\<open>parse_process_char\<close>), without an escape character, not strict, and
  without the limit on the size of a field. The reader holds the state, the characters
  of the field it is in, and the fields of the record read so far. \<open>None\<close> as a
  character is the end-of-line marker the reader feeds itself after each line.
\<close>

datatype parser_state =
  START_RECORD | START_FIELD | IN_FIELD | IN_QUOTED_FIELD | QUOTE_IN_QUOTED_FIELD | EAT_CRNL

datatype csv_error = Error

record reader =
  state :: parser_state
  field :: string
  row :: "string list"

definition parse_reset :: reader where
  "parse_reset = \<lparr>state = START_RECORD, field = [], row = []\<rparr>"

definition parse_save_field :: "reader \<Rightarrow> reader" where
  "parse_save_field r = r\<lparr>row := row r @ [field r], field := []\<rparr>"

definition parse_add_char :: "reader \<Rightarrow> char \<Rightarrow> reader" where
  "parse_add_char r c = r\<lparr>field := field r @ [c]\<rparr>"

definition start_field :: "reader \<Rightarrow> char option \<Rightarrow> reader" where
  "start_field r c =
     (case c of
        None \<Rightarrow> (parse_save_field r)\<lparr>state := START_RECORD\<rparr>
      | Some ch \<Rightarrow>
          if ch = LF \<or> ch = CR then (parse_save_field r)\<lparr>state := EAT_CRNL\<rparr>
          else if ch = DQ then r\<lparr>state := IN_QUOTED_FIELD\<rparr>
          else if ch = CHR '','' then (parse_save_field r)\<lparr>state := START_FIELD\<rparr>
          else (parse_add_char r ch)\<lparr>state := IN_FIELD\<rparr>)"

definition parse_process_char :: "reader \<Rightarrow> char option \<Rightarrow> csv_error + reader" where
  "parse_process_char r c =
     (case state r of
        START_RECORD \<Rightarrow>
          (case c of
             None \<Rightarrow> Inr r
           | Some ch \<Rightarrow>
               if ch = LF \<or> ch = CR then Inr (r\<lparr>state := EAT_CRNL\<rparr>)
               else Inr (start_field r c))
      | START_FIELD \<Rightarrow> Inr (start_field r c)
      | IN_FIELD \<Rightarrow>
          (case c of
             None \<Rightarrow> Inr ((parse_save_field r)\<lparr>state := START_RECORD\<rparr>)
           | Some ch \<Rightarrow>
               if ch = LF \<or> ch = CR then Inr ((parse_save_field r)\<lparr>state := EAT_CRNL\<rparr>)
               else if ch = CHR '','' then Inr ((parse_save_field r)\<lparr>state := START_FIELD\<rparr>)
               else Inr (parse_add_char r ch))
      | IN_QUOTED_FIELD \<Rightarrow>
          (case c of
             None \<Rightarrow> Inr r
           | Some ch \<Rightarrow>
               if ch = DQ then Inr (r\<lparr>state := QUOTE_IN_QUOTED_FIELD\<rparr>)
               else Inr (parse_add_char r ch))
      | QUOTE_IN_QUOTED_FIELD \<Rightarrow>
          (case c of
             None \<Rightarrow> Inr ((parse_save_field r)\<lparr>state := START_RECORD\<rparr>)
           | Some ch \<Rightarrow>
               if ch = DQ then Inr ((parse_add_char r ch)\<lparr>state := IN_QUOTED_FIELD\<rparr>)
               else if ch = CHR '','' then Inr ((parse_save_field r)\<lparr>state := START_FIELD\<rparr>)
               else if ch = LF \<or> ch = CR then Inr ((parse_save_field r)\<lparr>state := EAT_CRNL\<rparr>)
               else Inr ((parse_add_char r ch)\<lparr>state := IN_FIELD\<rparr>))
      | EAT_CRNL \<Rightarrow>
          (case c of
             None \<Rightarrow> Inr (r\<lparr>state := START_RECORD\<rparr>)
           | Some ch \<Rightarrow> if ch = LF \<or> ch = CR then Inr r else Inl Error))"

text \<open>
  The reader takes its text line by line, a line ending with its line feed (the lines
  of an \<^verbatim>\<open>io.StringIO\<close>), and hands out a record whenever the state after a line is
  \<open>START_RECORD\<close>. \<open>mid\<close> says that the current line has characters already. The
  result is the records read and, when a line could not be parsed, the error raised
  after them.
\<close>

fun read_chars :: "reader \<Rightarrow> bool \<Rightarrow> string \<Rightarrow> string list list \<times> csv_error option" where
  "read_chars r mid [] =
     (if mid then
        (case parse_process_char r None of
           Inl err \<Rightarrow> ([], Some err)
         | Inr r' \<Rightarrow>
             if state r' = START_RECORD then ([row r'], None)
             else ([row (parse_save_field r')], None))
      else if field r \<noteq> [] \<or> state r = IN_QUOTED_FIELD then ([row (parse_save_field r)], None)
      else ([], None))"
| "read_chars r mid (c # cs) =
     (case parse_process_char r (Some c) of
        Inl err \<Rightarrow> ([], Some err)
      | Inr r1 \<Rightarrow>
          if c = LF then
            (case parse_process_char r1 None of
               Inl err \<Rightarrow> ([], Some err)
             | Inr r2 \<Rightarrow>
                 if state r2 = START_RECORD
                 then apfst ((#) (row r2)) (read_chars parse_reset False cs)
                 else read_chars r2 False cs)
          else read_chars r1 True cs)"

definition csv_reader :: "string \<Rightarrow> string list list \<times> csv_error option" where
  "csv_reader text = read_chars parse_reset False text"

section \<open>The responses (image_processor/response.py)\<close>

text \<open>
  A response is its body, a dictionary kept as a list of keys and values, and the
  status it was built with (\<open>None\<close>: no status was passed, and the framework's default
  applies). \<^verbatim>\<open>APIResponse\<close> adds the message to the body when there is one;
  \<^verbatim>\<open>ErrorAPIResponse\<close> replaces the body by the message under the key \<^verbatim>\<open>error\<close>.
  The module \<^verbatim>\<open>processing/messages.py\<close> is not part of the sources: its constants are
  a parameter of the views.
\<close>

datatype json = JString string | JBool bool | JTime nat

record response =
  data :: "(string \<times> json) list"
  status :: "nat option"

record messages =
  NO_UPLOADED_FILE :: string
  NOT_CSV_FILE :: string
  CSV_FILE_READ_ERROR :: string
  CSV_ERROR :: string
  UPLOAD_CSV_EXCEPPTION :: string
  IMAGE_PROCESSING_EXCEPTION :: string
  MISSING_REQUEST_ID :: string
  STATUS_EXCEPTION :: string

definition HTTP_200_OK :: nat where "HTTP_200_OK = 200"
definition HTTP_400_BAD_REQUEST :: nat where "HTTP_400_BAD_REQUEST = 400"
definition HTTP_404_NOT_FOUND :: nat where "HTTP_404_NOT_FOUND = 404"

definition dict_update :: "(string \<times> json) list \<Rightarrow> string \<Rightarrow> json \<Rightarrow> (string \<times> json) list" where
  "dict_update d k v =
     (if k \<in> set (map fst d) then map (\<lambda>(k', v'). if k' = k then (k', v) else (k', v')) d
      else d @ [(k, v)])"

definition APIResponse :: "(string \<times> json) list \<Rightarrow> nat option \<Rightarrow> string \<Rightarrow> response" where
  "APIResponse d st message =
     \<lparr>data = (if message \<noteq> [] then dict_update d ''message'' (JString message) else d), status = st\<rparr>"

definition ErrorAPIResponse :: "string \<Rightarrow> nat option \<Rightarrow> response" where
  "ErrorAPIResponse message st = \<lparr>data = [(''error'', JString message)], status = st\<rparr>"

section \<open>The serializer (processing/serializers.py)\<close>

text \<open>
  \<^verbatim>\<open>ProcessingRequestSerializer\<close> declares the field \<^verbatim>\<open>products\<close> and lists
  \<^verbatim>\<open>request_id\<close>, \<^verbatim>\<open>created_at\<close> and \<^verbatim>\<open>completed\<close> in \<^verbatim>\<open>Meta.fields\<close>. The
  \<^verbatim>\<open>ModelSerializer\<close> of the REST framework asserts, when the fields are first needed,
  that every declared field is listed (\<^verbatim>\<open>get_field_names\<close>); the data are then one
  value per listed field.
\<close>

datatype drf_error = AssertionError

definition get_field_names :: "string list \<Rightarrow> string list \<Rightarrow> drf_error + string list" where
  "get_field_names declared meta_fields =
     (if list_all (\<lambda>field_name. field_name \<in> set meta_fields) declared then Inr meta_fields
      else Inl AssertionError)"

definition declared_fields :: "string list" where
  "declared_fields = [''products'']"

definition Meta_fields :: "string list" where
  "Meta_fields = [''request_id'', ''created_at'', ''completed'']"

definition to_representation :: "ProcessingRequest \<Rightarrow> string \<Rightarrow> json" where
  "to_representation r field_name =
     (if field_name = ''request_id'' then JString (request_id r)
      else if field_name = ''created_at'' then JTime (created_at r)
      else JBool (completed r))"

definition serializer_data :: "ProcessingRequest \<Rightarrow> drf_error + (string \<times> json) list" where
  "serializer_data r =
     (case get_field_names declared_fields Meta_fields of
        Inl err \<Rightarrow> Inl err
      | Inr names \<Rightarrow> Inr (map (\<lambda>n. (n, to_representation r n)) names))"

section \<open>The views (processing/views.py)\<close>

text \<open>
  \<^verbatim>\<open>StatusCheckView.get\<close>. The argument is the query parameter \<^verbatim>\<open>request_id\<close>, \<open>None\<close>
  when it is absent. The whole body stands in a \<^verbatim>\<open>try\<close> whose \<^verbatim>\<open>except Exception\<close>
  answers with \<^verbatim>\<open>ErrorAPIResponse(message=messages.STATUS_EXCEPTION)\<close>, no status given:
  that is where the \<^verbatim>\<open>Http404\<close> of \<^verbatim>\<open>get_object_or_404\<close> and the assertion of the
  serializer end.
\<close>

definition status_check :: "messages \<Rightarrow> world \<Rightarrow> string option \<Rightarrow> response" where
  "status_check msgs w query_request_id =
     (case query_request_id of
        None \<Rightarrow> ErrorAPIResponse (MISSING_REQUEST_ID msgs) (Some HTTP_400_BAD_REQUEST)
      | Some rid \<Rightarrow>
          if rid = [] then ErrorAPIResponse (MISSING_REQUEST_ID msgs) (Some HTTP_400_BAD_REQUEST)
          else (case find (\<lambda>r. request_id r = rid) (requests w) of
                  None \<Rightarrow> ErrorAPIResponse (STATUS_EXCEPTION msgs) None
                | Some processing_request \<Rightarrow>
                    (case serializer_data processing_request of
                       Inl err \<Rightarrow> ErrorAPIResponse (STATUS_EXCEPTION msgs) None
                     | Inr d \<Rightarrow> APIResponse d (Some HTTP_200_OK) [])))"












section \<open>Specification vocabulary\<close>

text \<open>
  A URL counts as fetched and transcoded when \<^verbatim>\<open>requests.get\<close> returns its bytes and
  Pillow recompresses them; it counts as stored when, in addition, the recompressed
  bytes were written to the output directory.
\<close>

definition fetched_and_transcoded :: "env \<Rightarrow> string \<Rightarrow> bool" where
  "fetched_and_transcoded e url =
     (case requests_get e url of
        None \<Rightarrow> False
      | Some content \<Rightarrow> (case image_recompress e content of Recompressed d \<Rightarrow> True | _ \<Rightarrow> False))"

definition stored :: "env \<Rightarrow> string \<Rightarrow> bool" where
  "stored e url =
     (case requests_get e url of
        None \<Rightarrow> False
      | Some content \<Rightarrow>
          (case image_recompress e content of
             Recompressed d \<Rightarrow> file_write e (path_join (output_directory e) [compressed_name url]) d
           | _ \<Rightarrow> False))"

text \<open>
  What a completed pass over a product leaves in its row: the comma-joined locations
  of the images that were fetched and transcoded, in the order of the input URLs, and
  the processed flag.
\<close>

definition processed_version :: "env \<Rightarrow> Product \<Rightarrow> Product" where
  "processed_version e p =
     p\<lparr>output_image_urls :=
         join '','' (map (image_url e) (filter (fetched_and_transcoded e) (split CHR '','' (input_image_urls p)))),
       processed := True\<rparr>"

text \<open>
  The job with a given identifier, as the store holds it: its row, its completed flag,
  its summary artifact, and whether all of its items are marked processed.
\<close>

definition job_row :: "world \<Rightarrow> string \<Rightarrow> ProcessingRequest option" where
  "job_row w rid = find (\<lambda>r. request_id r = rid) (requests w)"

definition job_completed :: "world \<Rightarrow> string \<Rightarrow> bool" where
  "job_completed w rid = (case job_row w rid of None \<Rightarrow> False | Some r \<Rightarrow> completed r)"

definition job_artifact :: "world \<Rightarrow> string \<Rightarrow> string option" where
  "job_artifact w rid = (case job_row w rid of None \<Rightarrow> None | Some r \<Rightarrow> result_file r)"

definition items_processed :: "world \<Rightarrow> string \<Rightarrow> bool" where
  "items_processed w rid =
     (case job_row w rid of None \<Rightarrow> True | Some r \<Rightarrow> list_all processed (product_set r w))"

section \<open>Example data\<close>

text \<open>
  A world in which two images can be fetched and recompressed, one URL serves a web
  page (bytes Pillow cannot identify), one serves an image Pillow refuses for a reason
  other than an \<^verbatim>\<open>OSError\<close>, and every other URL cannot be fetched. Three jobs: the
  first is the two-item scenario of the specification.
\<close>

definition env0 :: env where
  "env0 = \<lparr>MEDIA_ROOT = ''/srv/media'', MEDIA_URL = ''/media/'',
     requests_get = (\<lambda>url. if url = ''http://x/a.jpg'' then Some ''AAAA''
                          else if url = ''http://x/b.jpg'' then Some ''BBBB''
                          else if url = ''http://x/page.html'' then Some ''<html>''
                          else if url = ''http://x/huge.png'' then Some ''bomb''
                          else None),
     image_recompress = (\<lambda>content. if content = ''<html>'' then PIL_OSError
                          else if content = ''bomb'' then PIL_Exception
                          else Recompressed (take 2 content)),
     file_write = (\<lambda>path data. True),
     makedirs_ok = True,
     product_save_ok = (\<lambda>p. True),
     storage_save = (\<lambda>nm content. Some nm),
     request_save_ok = (\<lambda>r. True)\<rparr>"

definition job1 :: ProcessingRequest where
  "job1 = \<lparr>request_pk = 1, request_id = ''job-1'', created_at = 0, completed = False, result_file = None\<rparr>"

definition widget :: Product where
  "widget = \<lparr>product_pk = 1, request = 1, serial_number = 1, name = ''Widget'',
     input_image_urls = ''http://x/a.jpg,http://x/b.jpg'', output_image_urls = [], processed = False\<rparr>"

definition gadget :: Product where
  "gadget = \<lparr>product_pk = 2, request = 1, serial_number = 2, name = ''Gadget'',
     input_image_urls = ''http://x/c.jpg'', output_image_urls = [], processed = False\<rparr>"

definition world0 :: world where
  "world0 = \<lparr>requests = [job1], products = [widget, gadget], files = []\<rparr>"

definition camera :: Product where
  "camera = \<lparr>product_pk = 3, request = 2, serial_number = 7, name = ''Camera'',
     input_image_urls = ''http://x/a.jpg,http://x/huge.png,http://x/b.jpg'', output_image_urls = [], processed = False\<rparr>"

definition leaflet :: Product where
  "leaflet = \<lparr>product_pk = 4, request = 3, serial_number = 1, name = ''Leaflet'',
     input_image_urls = ''http://x/page.html'', output_image_urls = [], processed = False\<rparr>"

definition job2 :: ProcessingRequest where
  "job2 = \<lparr>request_pk = 2, request_id = ''job-2'', created_at = 5, completed = False, result_file = None\<rparr>"

definition job3 :: ProcessingRequest where
  "job3 = \<lparr>request_pk = 3, request_id = ''job-3'', created_at = 9, completed = False, result_file = None\<rparr>"

definition world1 :: world where
  "world1 = \<lparr>requests = [job1, job2, job3], products = [widget, gadget, camera, leaflet], files = []\<rparr>"

text \<open>
  A variation of the world in which the record store refuses every product row. And a
  fourth job, whose first item has an empty URL field.
\<close>

definition env_db_down :: env where
  "env_db_down = env0\<lparr>product_save_ok := (\<lambda>p. False)\<rparr>"

definition job4 :: ProcessingRequest where
  "job4 = \<lparr>request_pk = 4, request_id = ''job-4'', created_at = 12, completed = False, result_file = None\<rparr>"

definition sticker :: Product where
  "sticker = \<lparr>product_pk = 5, request = 4, serial_number = 1, name = ''Sticker'',
     input_image_urls = [], output_image_urls = [], processed = False\<rparr>"

definition poster :: Product where
  "poster = \<lparr>product_pk = 6, request = 4, serial_number = 2, name = ''Poster'',
     input_image_urls = ''http://x/a.jpg'', output_image_urls = [], processed = False\<rparr>"

definition world2 :: world where
  "world2 = \<lparr>requests = [job4], products = [sticker, poster], files = []\<rparr>"

text \<open>Messages, an upload, and two manifests: one without the URL column, one complete.\<close>

definition msgs0 :: messages where
  "msgs0 = \<lparr>NO_UPLOADED_FILE = ''No file uploaded'', NOT_CSV_FILE = ''Not a CSV file'',
     CSV_FILE_READ_ERROR = ''Could not read the CSV file'', CSV_ERROR = ''CSV error'',
     UPLOAD_CSV_EXCEPPTION = ''Upload failed'', IMAGE_PROCESSING_EXCEPTION = ''Image processing failed'',
     MISSING_REQUEST_ID = ''Missing request id'', STATUS_EXCEPTION = ''Status check failed''\<rparr>"




definition manifest_ok :: string where
  "manifest_ok = ''Serial Number,Product Name,Input Image Urls'' @ [LF]
     @ ''1,Widget,'' @ [DQ] @ ''http://x/a.jpg,http://x/b.jpg'' @ [DQ, LF] @ ''2,Gadget,http://x/huge.png'' @ [LF]"

text \<open>
  A world in which the output directory cannot be made, and a sixth job whose one item
  has a good image followed by a web page.
\<close>

definition env_no_dir :: env where
  "env_no_dir = env0\<lparr>makedirs_ok := False\<rparr>"

definition job6 :: ProcessingRequest where
  "job6 = \<lparr>request_pk = 6, request_id = ''job-6'', created_at = 30, completed = False, result_file = None\<rparr>"

definition brochure :: Product where
  "brochure = \<lparr>product_pk = 7, request = 6, serial_number = 3, name = ''Brochure'',
     input_image_urls = ''http://x/a.jpg,http://x/page.html'', output_image_urls = [], processed = False\<rparr>"

definition world3 :: world where
  "world3 = \<lparr>requests = [job6], products = [brochure], files = []\<rparr>"

text \<open>
  Worlds in which the artifact cannot be stored, in which a request row cannot be saved
  once its completed flag is set, and in which no image file can be written. A seventh
  job, whose first item has a URL that cannot be fetched between two that can. A
  manifest whose third line holds a carriage return inside an unquoted field, and an
  upload whose bytes cannot be decoded.
\<close>

definition env_no_storage :: env where
  "env_no_storage = env0\<lparr>storage_save := (\<lambda>nm content. None)\<rparr>"

definition env_no_complete :: env where
  "env_no_complete = env0\<lparr>request_save_ok := (\<lambda>r. \<not> completed r)\<rparr>"

definition env_disk_full :: env where
  "env_disk_full = env0\<lparr>file_write := (\<lambda>path content. False)\<rparr>"

definition job7 :: ProcessingRequest where
  "job7 = \<lparr>request_pk = 7, request_id = ''job-7'', created_at = 40, completed = False, result_file = None\<rparr>"

definition tripod :: Product where
  "tripod = \<lparr>product_pk = 8, request = 7, serial_number = 1, name = ''Tripod'',
     input_image_urls = ''http://x/a.jpg,http://x/c.jpg,http://x/b.jpg'', output_image_urls = [], processed = False\<rparr>"

definition lamp :: Product where
  "lamp = \<lparr>product_pk = 9, request = 7, serial_number = 2, name = ''Lamp'',
     input_image_urls = ''http://x/b.jpg'', output_image_urls = [], processed = False\<rparr>"

definition world4 :: world where
  "world4 = \<lparr>requests = [job7], products = [tripod, lamp], files = []\<rparr>"



section \<open>Facts about strings\<close>

lemma split_not_Nil: "split sep s \<noteq> []"
  by (induction s) (auto split: list.splits)

section \<open>The loops of process_images\<close>

lemma process_urls_Return:
  "process_urls e urls fn outs fs = (Return (fn', outs'), fs') \<Longrightarrow>
     outs' = outs @ map (image_url e) (filter (fetched_and_transcoded e) urls)"
proof (induction urls arbitrary: fn outs fs)
  case Nil
  then show ?case by simp
next
  case (Cons url urls)
  show ?case
  proof (cases "requests_get e url")
    case None
    with Cons.prems show ?thesis by simp
  next
    case (Some content)
    show ?thesis
    proof (cases "image_recompress e content")
      case (Recompressed d)
      hence ft: "fetched_and_transcoded e url"
        using Some by (simp add: fetched_and_transcoded_def)
      from Cons.prems Some Recompressed
      have "process_urls e urls (Some (compressed_name url)) (outs @ [image_url e url])
              (fs @ [(path_join (output_directory e) [compressed_name url], d)]) = (Return (fn', outs'), fs')"
        by (simp add: Let_def split: if_splits)
      from Cons.IH[OF this] ft show ?thesis by simp
    next
      case PIL_OSError
      with Cons.prems Some show ?thesis by (simp split: option.splits)
    next
      case PIL_Exception
      hence ft: "\<not> fetched_and_transcoded e url"
        using Some by (simp add: fetched_and_transcoded_def)
      from Cons.prems Some PIL_Exception
      have "process_urls e urls fn outs fs = (Return (fn', outs'), fs')" by simp
      from Cons.IH[OF this] ft show ?thesis by simp
    qed
  qed
qed

lemma process_urls_fetch_fails:
  "url \<in> set urls \<Longrightarrow> requests_get e url = None \<Longrightarrow>
     \<exists>x fs'. process_urls e urls fn outs fs = (Raise x, fs')"
proof (induction urls arbitrary: fn outs fs)
  case Nil
  then show ?case by simp
next
  case (Cons u urls)
  then show ?case
    by (auto simp: Let_def split: option.splits pil_outcome.splits)
qed

lemma process_products_Return:
  "process_products e ps fn od w = (Return (fn', od'), w') \<Longrightarrow>
     od' = od @ map (\<lambda>p. summary_of (processed_version e p)) ps
     \<and> products w' = fold save_product (map (processed_version e) ps) (products w)
     \<and> requests w' = requests w"
proof (induction ps arbitrary: fn od w)
  case Nil
  then show ?case by simp
next
  case (Cons p ps)
  obtain r fs where pu: "process_urls e (split CHR '','' (input_image_urls p)) fn [] (files w) = (r, fs)"
    by (cases "process_urls e (split CHR '','' (input_image_urls p)) fn [] (files w)")
  show ?case
  proof (cases r)
    case (Raise x)
    with Cons.prems pu show ?thesis by simp
  next
    case (Return v)
    obtain fn1 outs where v: "v = (fn1, outs)" by (cases v)
    from process_urls_Return[of e _ fn "[]" "files w" fn1 outs fs] pu Return v
    have outs: "outs = map (image_url e) (filter (fetched_and_transcoded e) (split CHR '','' (input_image_urls p)))"
      by simp
    hence pv: "p\<lparr>output_image_urls := join '','' outs, processed := True\<rparr> = processed_version e p"
      by (simp add: processed_version_def)
    from Cons.prems pu Return v pv
    have ok: "product_save_ok e (processed_version e p)"
      and rec: "process_products e ps fn1 (od @ [summary_of (processed_version e p)])
             (w\<lparr>files := fs, products := save_product (processed_version e p) (products w)\<rparr>) = (Return (fn', od'), w')"
      by (auto simp: Let_def split: if_splits)
    from Cons.IH[OF rec] show ?thesis by simp
  qed
qed

lemma process_products_append:
  "process_products e (xs @ ys) fn od w =
     (case process_products e xs fn od w of
        (Raise x, w1) \<Rightarrow> (Raise x, w1)
      | (Return (fn1, od1), w1) \<Rightarrow> process_products e ys fn1 od1 w1)"
proof (induction xs arbitrary: fn od w)
  case Nil
  then show ?case by simp
next
  case (Cons p xs)
  then show ?case
    by (auto simp: Let_def split: prod.splits outcome.splits)
qed

lemma process_products_Raise_requests:
  "requests (snd (process_products e ps fn od w)) = requests w"
proof (induction ps arbitrary: fn od w)
  case Nil
  then show ?case by simp
next
  case (Cons p ps)
  then show ?case
    by (auto simp: Let_def split: prod.splits outcome.splits)
qed


lemma save_product_keeps:
  "q \<in> set ps \<Longrightarrow> product_pk q \<noteq> product_pk p \<Longrightarrow> q \<in> set (save_product p ps)"
  by (force simp: save_product_def)

lemma process_products_keeps:
  "q \<in> set (products w) \<Longrightarrow> product_pk q \<notin> product_pk ` set ps \<Longrightarrow>
     q \<in> set (products (snd (process_products e ps fn od w)))"
proof (induction ps arbitrary: fn od w)
  case Nil
  then show ?case by simp
next
  case (Cons p ps)
  then show ?case
    by (auto simp: Let_def save_product_keeps split: prod.splits outcome.splits)
qed

lemma process_products_head_Raise:
  assumes "process_urls e (split CHR '','' (input_image_urls p)) fn [] (files w) = (Raise x, fs)"
  shows "process_products e (p # rest) fn od w = (Raise x, w\<lparr>files := fs\<rparr>)"
  using assms by simp

lemma process_products_fatal_item:
  assumes "url \<in> set (split CHR '','' (input_image_urls p))" and "requests_get e url = None"
  shows "\<exists>x. fst (process_products e (pre @ p # post) fn od w) = Raise x"
    and "products (snd (process_products e (pre @ p # post) fn od w))
           = products (snd (process_products e pre fn od w))"
proof -
  obtain r1 w1 where pre: "process_products e pre fn od w = (r1, w1)"
    by (cases "process_products e pre fn od w")
  have "(\<exists>x. fst (process_products e (pre @ p # post) fn od w) = Raise x)
        \<and> products (snd (process_products e (pre @ p # post) fn od w)) = products w1"
  proof (cases r1)
    case (Raise x)
    with pre show ?thesis by (simp add: process_products_append)
  next
    case (Return v)
    obtain fn1 od1 where v: "v = (fn1, od1)" by (cases v)
    from process_urls_fetch_fails[OF assms, of fn1 "[]" "files w1"]
    obtain x fs where "process_urls e (split CHR '','' (input_image_urls p)) fn1 [] (files w1) = (Raise x, fs)"
      by blast
    hence "process_products e (p # post) fn1 od1 w1 = (Raise x, w1\<lparr>files := fs\<rparr>)"
      by (rule process_products_head_Raise)
    with pre Return v show ?thesis by (simp add: process_products_append)
  qed
  with pre show "\<exists>x. fst (process_products e (pre @ p # post) fn od w) = Raise x"
    and "products (snd (process_products e (pre @ p # post) fn od w))
           = products (snd (process_products e pre fn od w))"
    by simp_all
qed

lemma process_images_Raise:
  assumes "fst (process_products e (product_set self w) None [] w) = Raise x"
  shows "process_images e self w = (Raise x, snd (process_products e (product_set self w) None [] w))"
  using assms by (cases "process_products e (product_set self w) None [] w") (simp add: process_images_def)

lemma distinct_pk_product_set:
  "distinct (map product_pk (products w)) \<Longrightarrow> distinct (map product_pk (product_set self w))"
  by (simp add: product_set_def distinct_map_filter)

lemma process_urls_append:
  "process_urls e (us @ vs) fn outs fs =
     (case process_urls e us fn outs fs of
        (Raise x, fs') \<Rightarrow> (Raise x, fs')
      | (Return (fn', outs'), fs') \<Rightarrow> process_urls e vs fn' outs' fs')"
proof (induction us arbitrary: fn outs fs)
  case Nil
  then show ?case by simp
next
  case (Cons u us)
  then show ?case
    by (auto simp: Let_def split: option.splits pil_outcome.splits)
qed

lemma process_urls_stops_at_failed_fetch:
  assumes "requests_get e url = None"
  shows "process_urls e (us @ url # rest) fn outs fs = process_urls e (us @ [url]) fn outs fs"
  using assms by (simp add: process_urls_append split: prod.splits outcome.splits)

lemma process_images_at_fatal_item:
  assumes items: "product_set self w = pre @ p # post"
      and pre: "process_products e pre None [] w = (Return (fn1, od1), w1)"
      and fatal: "fst (process_urls e (split CHR '','' (input_image_urls p)) fn1 [] (files w1)) = Raise x"
  shows "process_images e self w =
           (Raise x, w1\<lparr>files := snd (process_urls e (split CHR '','' (input_image_urls p)) fn1 [] (files w1))\<rparr>)"
proof -
  obtain fs where pu: "process_urls e (split CHR '','' (input_image_urls p)) fn1 [] (files w1) = (Raise x, fs)"
    using fatal by (cases "process_urls e (split CHR '','' (input_image_urls p)) fn1 [] (files w1)") simp
  hence "process_products e (p # post) fn1 od1 w1 = (Raise x, w1\<lparr>files := fs\<rparr>)"
    by (rule process_products_head_Raise)
  with pre have "process_products e (pre @ p # post) None [] w = (Raise x, w1\<lparr>files := fs\<rparr>)"
    by (simp add: process_products_append)
  with items pu show ?thesis by (simp add: process_images_def)
qed

lemma process_images_at_fatal_prefix:
  assumes items: "product_set self w = pre @ rest"
      and pre: "process_products e pre None [] w = (Raise x, w1)"
  shows "process_images e self w = (Raise x, w1)"
  using assms by (simp add: process_images_def process_products_append)

text \<open>
  An item one of whose URLs cannot be fetched: the pass over the products ends there
  with an exception, and the tables are what the pass over the earlier items left.
\<close>

lemma fatal_item_halts_batch:
  assumes items: "product_set self w = pre @ p # post"
      and url: "url \<in> set (split CHR '','' (input_image_urls p))"
      and fails: "requests_get e url = None"
      and pks: "distinct (map product_pk (products w))"
  shows "(\<exists>x. fst (process_images e self w) = Raise x)
       \<and> list_all (\<lambda>q. q \<in> set (products (snd (process_images e self w)))) (p # post)
       \<and> products (snd (process_images e self w)) = products (snd (process_products e pre None [] w))
       \<and> requests (snd (process_images e self w)) = requests w"
proof -
  from process_products_fatal_item[OF url fails, of pre post None "[]" w] items
  obtain x where x: "fst (process_products e (product_set self w) None [] w) = Raise x"
    and same: "products (snd (process_products e (product_set self w) None [] w))
                 = products (snd (process_products e pre None [] w))"
    by auto
  have pi: "process_images e self w = (Raise x, snd (process_products e (product_set self w) None [] w))"
    by (rule process_images_Raise[OF x])
  have d: "distinct (map product_pk (pre @ p # post))"
    using distinct_pk_product_set[OF pks, of self] items by simp
  have "q \<in> set (products (snd (process_products e pre None [] w)))" if q: "q \<in> set (p # post)" for q
  proof (rule process_products_keeps)
    from q items have "q \<in> set (product_set self w)" by auto
    thus "q \<in> set (products w)" by (simp add: product_set_def)
    from d q show "product_pk q \<notin> product_pk ` set pre" by auto
  qed
  hence "list_all (\<lambda>q. q \<in> set (products (snd (process_products e pre None [] w)))) (p # post)"
    unfolding list_all_iff by blast
  with pi same show ?thesis
    by (simp add: process_products_Raise_requests)
qed

section \<open>The job's row through a run\<close>

lemma find_save_request:
  "find (\<lambda>r. request_id r = rid) rs = Some self \<Longrightarrow> request_pk s' = request_pk self \<Longrightarrow>
   request_id s' = rid \<Longrightarrow> find (\<lambda>r. request_id r = rid) (save_request s' rs) = Some s'"
  by (induction rs) (auto simp: save_request_def split: if_splits)

lemma find_request_id: "find (\<lambda>r. request_id r = rid) rs = Some self \<Longrightarrow> request_id self = rid"
  by (induction rs) (auto split: if_splits)

lemma process_products_processed:
  "process_products e ps fn od w = (Return v, w') \<Longrightarrow> q \<in> set (products w') \<Longrightarrow>
     processed q \<or> (q \<in> set (products w) \<and> product_pk q \<notin> product_pk ` set ps)"
proof (induction ps arbitrary: fn od w)
  case Nil
  then show ?case by simp
next
  case (Cons p ps)
  obtain r fs where pu: "process_urls e (split CHR '','' (input_image_urls p)) fn [] (files w) = (r, fs)"
    by (cases "process_urls e (split CHR '','' (input_image_urls p)) fn [] (files w)")
  show ?case
  proof (cases r)
    case (Raise x)
    with Cons.prems pu show ?thesis by simp
  next
    case (Return u)
    obtain fn1 outs where u: "u = (fn1, outs)" by (cases u)
    define p' where "p' = p\<lparr>output_image_urls := join '','' outs, processed := True\<rparr>"
    from Cons.prems(1) pu Return u
    have rec: "process_products e ps fn1 (od @ [summary_of p'])
             (w\<lparr>files := fs, products := save_product p' (products w)\<rparr>) = (Return v, w')"
      by (auto simp: Let_def p'_def split: if_splits)
    from Cons.IH[OF rec Cons.prems(2)]
    have "processed q \<or> (q \<in> set (save_product p' (products w)) \<and> product_pk q \<notin> product_pk ` set ps)"
      by simp
    moreover have "processed p'" "product_pk p' = product_pk p" by (simp_all add: p'_def)
    ultimately show ?thesis
      by (auto simp: save_product_def split: if_splits)
  qed
qed

lemma process_products_all_processed:
  assumes "process_products e (product_set self w) fn od w = (Return v, w')"
      and "request_pk s' = request_pk self"
  shows "list_all processed (product_set s' w')"
proof -
  have "processed q" if q: "q \<in> set (product_set s' w')" for q
  proof -
    from q have qin: "q \<in> set (products w')" and rq: "request q = request_pk self"
      using assms(2) by (simp_all add: product_set_def)
    from process_products_processed[OF assms(1) qin]
    show ?thesis
    proof
      assume "q \<in> set (products w) \<and> product_pk q \<notin> product_pk ` set (product_set self w)"
      with rq have False by (auto simp: product_set_def)
      thus ?thesis ..
    qed simp
  qed
  thus ?thesis by (simp add: list_all_iff)
qed

lemma job_completed_save:
  assumes "job_row w rid = Some self" "request_pk s' = request_pk self" "request_id s' = request_id self"
      and "requests w' = save_request s' (requests w)"
  shows "job_row w' rid = Some s'"
  using assms find_save_request[of rid "requests w" self s'] find_request_id[of rid "requests w" self]
  by (simp add: job_row_def)

lemma generate_csv_Return:
  assumes "generate_csv e self od w1 = (Return self1, w2)"
  shows "\<exists>stored. self1 = self\<lparr>result_file := Some stored\<rparr>
           \<and> requests w2 = save_request self1 (requests w1) \<and> products w2 = products w1
           \<and> files w2 = files w1 @ [(stored, csv_file_content od)]"
  using assms by (auto simp: generate_csv_def Let_def split: option.splits if_splits)

lemma generate_csv_Raise:
  assumes "generate_csv e self od w1 = (Raise x, w2)"
  shows "requests w2 = requests w1 \<and> products w2 = products w1 \<and> x = ValueError"
  using assms by (auto simp: generate_csv_def Let_def split: option.splits if_splits)

lemma complete_request_Return:
  assumes "complete_request e self1 w2 = (Return self2, w3)"
  shows "self2 = self1\<lparr>completed := True\<rparr> \<and> w3 = w2\<lparr>requests := save_request self2 (requests w2)\<rparr>"
  using assms by (auto simp: complete_request_def Let_def split: if_splits)

lemma complete_request_Raise:
  assumes "complete_request e self1 w2 = (Raise x, w3)"
  shows "w3 = w2 \<and> x = ValueError"
  using assms by (auto simp: complete_request_def Let_def split: if_splits)

lemma process_products_requests:
  "process_products e ps fn od w = (r, w1) \<Longrightarrow> requests w1 = requests w"
  using process_products_Raise_requests[of e ps fn od w] by simp

lemma job_facts_cong:
  "requests w1 = requests w \<Longrightarrow> job_row w1 rid = job_row w rid"
  by (simp add: job_row_def)

text \<open>What process_images does to the job it runs, case by case.\<close>

lemma process_images_job:
  assumes row: "job_row w rid = Some self"
      and pi: "process_images e self w = (res, w')"
  shows "(job_completed w rid \<longrightarrow> job_completed w' rid)
       \<and> (\<not> job_completed w rid \<and> job_completed w' rid \<longrightarrow>
            items_processed w' rid \<and> job_artifact w' rid \<noteq> None
            \<and> (\<exists>fn od w1 self1 w2.
                  process_products e (product_set self w) None [] w = (Return (fn, od), w1)
                  \<and> \<not> job_completed w1 rid
                  \<and> generate_csv e self od w1 = (Return self1, w2)
                  \<and> \<not> job_completed w2 rid \<and> items_processed w2 rid \<and> job_artifact w2 rid \<noteq> None
                  \<and> complete_request e self1 w2 = (Return (self1\<lparr>completed := True\<rparr>), w')
                  \<and> (\<exists>stored. job_artifact w2 rid = Some stored
                        \<and> (stored, csv_file_content od) \<in> set (files w2)
                        \<and> job_artifact w' rid = Some stored
                        \<and> (stored, csv_file_content od) \<in> set (files w'))))"
proof -
  obtain r1 w1 where pp: "process_products e (product_set self w) None [] w = (r1, w1)"
    by (cases "process_products e (product_set self w) None [] w")
  have rq1: "requests w1 = requests w" by (rule process_products_requests[OF pp])
  hence row1: "job_row w1 rid = Some self" using row by (simp add: job_row_def)
  show ?thesis
  proof (cases r1)
    case (Raise x)
    with pp pi have "w' = w1" by (simp add: process_images_def)
    with rq1 show ?thesis by (simp add: job_completed_def job_row_def)
  next
    case (Return v)
    obtain fn od where v: "v = (fn, od)" by (cases v)
    note pp' = pp[unfolded Return v]
    obtain r2 w2 where gc: "generate_csv e self od w1 = (r2, w2)"
      by (cases "generate_csv e self od w1")
    show ?thesis
    proof (cases r2)
      case (Raise x)
      with pp' gc pi have "w' = w2" by (simp add: process_images_def)
      moreover from generate_csv_Raise[OF gc[unfolded Raise]] have "requests w2 = requests w1" by simp
      ultimately show ?thesis using rq1 by (simp add: job_completed_def job_row_def)
    next
      case (Return self1)
      note gc' = gc[unfolded Return]
      from generate_csv_Return[OF gc'] obtain stored
        where s1: "self1 = self\<lparr>result_file := Some stored\<rparr>"
          and rq2: "requests w2 = save_request self1 (requests w1)"
          and pr2: "products w2 = products w1"
          and fl2: "files w2 = files w1 @ [(stored, csv_file_content od)]" by blast
      have row2: "job_row w2 rid = Some self1"
        by (rule job_completed_save[OF row1 _ _ rq2]) (simp_all add: s1)
      have c2: "job_completed w2 rid = job_completed w rid"
        using row row2 s1 by (simp add: job_completed_def)
      have a2: "job_artifact w2 rid \<noteq> None"
        using row2 s1 by (simp add: job_artifact_def)
      have st2: "job_artifact w2 rid = Some stored \<and> (stored, csv_file_content od) \<in> set (files w2)"
        using row2 s1 fl2 by (simp add: job_artifact_def)
      have "list_all processed (product_set self1 w1)"
        by (rule process_products_all_processed[OF pp']) (simp add: s1)
      hence ip2: "items_processed w2 rid"
        using row2 pr2 by (simp add: items_processed_def product_set_def)
      obtain r3 w3 where cr: "complete_request e self1 w2 = (r3, w3)"
        by (cases "complete_request e self1 w2")
      show ?thesis
      proof (cases r3)
        case (Raise x)
        with pp' gc' cr pi have "w' = w3" by (simp add: process_images_def)
        with complete_request_Raise[OF cr[unfolded Raise]] have "w' = w2" by simp
        with c2 show ?thesis by simp
      next
        case (Return self2)
        note cr' = cr[unfolded Return]
        from complete_request_Return[OF cr']
        have s2: "self2 = self1\<lparr>completed := True\<rparr>"
          and w3: "w3 = w2\<lparr>requests := save_request self2 (requests w2)\<rparr>" by simp_all
        from pp' gc' cr' pi have w': "w' = w3" by (simp add: process_images_def)
        have row3: "job_row w' rid = Some self2"
          by (rule job_completed_save[OF row2]) (simp_all add: s2 w' w3)
        have c3: "job_completed w' rid" using row3 s2 by (simp add: job_completed_def)
        have a3: "job_artifact w' rid \<noteq> None" using row3 s2 s1 by (simp add: job_artifact_def)
        have "list_all processed (product_set self2 w1)"
          by (rule process_products_all_processed[OF pp']) (simp add: s1 s2)
        hence ip3: "items_processed w' rid"
          using row3 pr2 by (simp add: items_processed_def product_set_def w' w3)
        have c1: "job_completed w1 rid = job_completed w rid"
          using rq1 by (simp add: job_completed_def job_row_def)
        have st3: "job_artifact w' rid = Some stored \<and> (stored, csv_file_content od) \<in> set (files w')"
          using row3 s2 s1 fl2 by (simp add: job_artifact_def w' w3)
        from st2 st3 have st: "\<exists>stored. job_artifact w2 rid = Some stored
                        \<and> (stored, csv_file_content od) \<in> set (files w2)
                        \<and> job_artifact w' rid = Some stored
                        \<and> (stored, csv_file_content od) \<in> set (files w')" by blast
        from c3 a3 ip3 c1 c2 a2 ip2 pp' gc' cr' s2 w' st show ?thesis by blast
      qed
    qed
  qed
qed

section \<open>The exceptions a run can end with\<close>

lemma process_urls_raises:
  "process_urls e urls fn outs fs = (Raise x, fs') \<Longrightarrow>
     x = ValueError \<or> (x = UnboundLocalError \<and> (\<exists>c. image_recompress e c = PIL_OSError))"
proof (induction urls arbitrary: fn outs fs)
  case Nil
  then show ?case by simp
next
  case (Cons url urls)
  then show ?case
    by (auto simp: Let_def split: option.splits pil_outcome.splits if_splits)
qed

lemma process_products_raises:
  "process_products e ps fn od w = (Raise x, w') \<Longrightarrow>
     x = ValueError \<or> (x = UnboundLocalError \<and> (\<exists>c. image_recompress e c = PIL_OSError))
     \<or> (x = DatabaseError \<and> (\<exists>p. \<not> product_save_ok e p))"
proof (induction ps arbitrary: fn od w)
  case Nil
  then show ?case by simp
next
  case (Cons p ps)
  obtain r fs where pu: "process_urls e (split CHR '','' (input_image_urls p)) fn [] (files w) = (r, fs)"
    by (cases "process_urls e (split CHR '','' (input_image_urls p)) fn [] (files w)")
  show ?case
  proof (cases r)
    case (Raise y)
    with Cons.prems pu have "y = x" by simp
    with process_urls_raises[OF pu[unfolded Raise]] show ?thesis by blast
  next
    case (Return u)
    obtain fn1 outs where u: "u = (fn1, outs)" by (cases u)
    show ?thesis
    proof (cases "product_save_ok e (p\<lparr>output_image_urls := join '','' outs, processed := True\<rparr>)")
      case False
      with Cons.prems pu Return u have "x = DatabaseError" by (simp add: Let_def)
      with False show ?thesis by blast
    next
      case True
      with Cons.prems pu Return u
      have "process_products e ps fn1 (od @ [summary_of (p\<lparr>output_image_urls := join '','' outs, processed := True\<rparr>)])
             (w\<lparr>files := fs, products := save_product (p\<lparr>output_image_urls := join '','' outs, processed := True\<rparr>) (products w)\<rparr>) = (Raise x, w')"
        by (simp add: Let_def)
      from Cons.IH[OF this] show ?thesis .
    qed
  qed
qed

lemma process_images_raises:
  assumes "process_images e self w = (Raise x, w')"
  shows "x = ValueError \<or> (x = UnboundLocalError \<and> (\<exists>c. image_recompress e c = PIL_OSError))
     \<or> (x = DatabaseError \<and> (\<exists>p. \<not> product_save_ok e p))"
proof -
  obtain r1 w1 where pp: "process_products e (product_set self w) None [] w = (r1, w1)"
    by (cases "process_products e (product_set self w) None [] w")
  show ?thesis
  proof (cases r1)
    case (Raise y)
    with pp assms have "y = x" by (simp add: process_images_def)
    with process_products_raises[OF pp[unfolded Raise]] show ?thesis by blast
  next
    case (Return v)
    with pp assms have "x = ValueError"
      by (auto simp: process_images_def split: prod.splits outcome.splits)
    thus ?thesis by simp
  qed
qed

lemma run_raises:
  assumes "fst (run e rid w) = Raise x"
  shows "(x = OSError \<and> \<not> makedirs_ok e)
     \<or> (x = UnboundLocalError \<and> (\<exists>c. image_recompress e c = PIL_OSError))
     \<or> (x = DatabaseError \<and> (\<exists>p. \<not> product_save_ok e p))"
proof (cases "init e rid w")
  case (Raise y)
  with assms show ?thesis
    by (auto simp: run_def init_def catch_ValueError_def split: option.splits if_splits)
next
  case (Return self)
  obtain r w' where pi: "process_images e self w = (r, w')" by (cases "process_images e self w")
  with Return assms have c: "catch_ValueError r = Raise x" by (simp add: run_def)
  then obtain y where r: "r = Raise y" and "y = x" "x \<noteq> ValueError"
    by (cases r) (auto simp: catch_ValueError_def split: if_splits)
  with process_images_raises[OF pi[unfolded r]] show ?thesis by blast
qed

lemma run_with_job:
  assumes "job_row w rid = Some self" and "makedirs_ok e"
  shows "run e rid w = (catch_ValueError (fst (process_images e self w)), snd (process_images e self w))"
  using assms by (simp add: run_def init_def job_row_def split: prod.splits)

lemma process_images_save_fails:
  assumes items: "product_set self w = pre @ p # post"
      and pre: "process_products e pre None [] w = (Return (fn1, od1), w1)"
      and urls: "process_urls e (split CHR '','' (input_image_urls p)) fn1 [] (files w1) = (Return (fn2, outs), fs2)"
      and save: "\<not> product_save_ok e (p\<lparr>output_image_urls := join '','' outs, processed := True\<rparr>)"
  shows "process_images e self w = (Raise DatabaseError, w1\<lparr>files := fs2\<rparr>)"
proof -
  from urls save have "process_products e (p # post) fn1 od1 w1 = (Raise DatabaseError, w1\<lparr>files := fs2\<rparr>)"
    by (simp add: Let_def)
  with pre have "process_products e (pre @ p # post) None [] w = (Raise DatabaseError, w1\<lparr>files := fs2\<rparr>)"
    by (simp add: process_products_append)
  with items show ?thesis by (simp add: process_images_def)
qed

section \<open>The claims about the item processor\<close>

text \<open>
  C1. The claim: when the bytes of a fetched URL cannot be decoded, only that URL is
  skipped and the item is still marked processed; a single fetchable but undecodable
  URL gives an empty output list with \<open>processed = True\<close>. The code does otherwise for
  bytes Pillow cannot identify: \<^verbatim>\<open>UnidentifiedImageError\<close> is an \<^verbatim>\<open>OSError\<close>, so the
  handler written for a failed file write catches it before \<^verbatim>\<open>except Exception\<close> can
  skip the URL, and the handler's message reads \<^verbatim>\<open>filename\<close>, which no statement has
  assigned yet. Job 3 has one item with one URL that serves a web page: the run ends
  with \<open>UnboundLocalError\<close>, which \<^verbatim>\<open>run\<close> does not catch, and nothing is written.
  Job 6 has one item with a good image and then the web page: by then \<^verbatim>\<open>filename\<close>
  is bound, the handler raises \<open>ValueError\<close>, \<^verbatim>\<open>run\<close> returns, and the item is left
  unprocessed with one image file written, where the claim has it processed with one
  output.
\<close>

theorem undecodable_image_is_fatal:
  "product_set job3 world1 = [leaflet]
   \<and> requests_get env0 (input_image_urls leaflet) = Some ''<html>''
   \<and> image_recompress env0 ''<html>'' = PIL_OSError
   \<and> run env0 ''job-3'' world1 = (Raise UnboundLocalError, world1)
   \<and> product_set job6 world3 = [brochure]
   \<and> split CHR '','' (input_image_urls brochure) = [''http://x/a.jpg'', ''http://x/page.html'']
   \<and> fetched_and_transcoded env0 ''http://x/a.jpg''
   \<and> process_images env0 job6 world3 =
        (Raise ValueError, world3\<lparr>files := [(''/srv/media/processed_images/compressed_a.jpg'', ''AA'')]\<rparr>)
   \<and> run env0 ''job-6'' world3 =
        (Return (), world3\<lparr>files := [(''/srv/media/processed_images/compressed_a.jpg'', ''AA'')]\<rparr>)"
  by code_simp

text \<open>
  C2. If one of an item's URLs cannot be fetched, processing ends with an exception
  at that item: the rows of that item and of every later item are untouched (their
  processed flags are not set), the product table is exactly what processing the
  earlier items left (nothing is rolled back), and no request row changes, so the
  job's completed flag stays as it was. The URLs after the one that failed are not
  attempted: the pass over a URL list gives what the pass over the list cut after the
  failed URL gives. The state left is the state the earlier items left, with the image
  files the fatal item wrote before it failed; if an earlier item was already fatal,
  the state is the one that item left.
\<close>

theorem fetch_failure_halts_batch:
  assumes items: "product_set self w = pre @ p # post"
      and url: "url \<in> set (split CHR '','' (input_image_urls p))"
      and fails: "requests_get e url = None"
      and pks: "distinct (map product_pk (products w))"
  shows "(\<exists>x. fst (process_images e self w) = Raise x)
       \<and> list_all (\<lambda>q. q \<in> set (products (snd (process_images e self w)))) (p # post)
       \<and> products (snd (process_images e self w)) = products (snd (process_products e pre None [] w))
       \<and> requests (snd (process_images e self w)) = requests w
       \<and> (\<forall>us rest fn outs fs.
             process_urls e (us @ url # rest) fn outs fs = process_urls e (us @ [url]) fn outs fs)
       \<and> (\<forall>x w1. process_products e pre None [] w = (Raise x, w1) \<longrightarrow>
             process_images e self w = (Raise x, w1))
       \<and> (\<forall>fn1 od1 w1. process_products e pre None [] w = (Return (fn1, od1), w1) \<longrightarrow>
             snd (process_images e self w) =
               w1\<lparr>files := snd (process_urls e (split CHR '','' (input_image_urls p)) fn1 [] (files w1))\<rparr>)"
proof -
  from process_products_fatal_item[OF url fails, of pre post None "[]" w] items
  obtain x where x: "fst (process_products e (product_set self w) None [] w) = Raise x"
    and same: "products (snd (process_products e (product_set self w) None [] w))
                 = products (snd (process_products e pre None [] w))"
    by auto
  have pi: "process_images e self w = (Raise x, snd (process_products e (product_set self w) None [] w))"
    by (rule process_images_Raise[OF x])
  have d: "distinct (map product_pk (pre @ p # post))"
    using distinct_pk_product_set[OF pks, of self] items by simp
  have "q \<in> set (products (snd (process_products e pre None [] w)))" if q: "q \<in> set (p # post)" for q
  proof (rule process_products_keeps)
    from q items have "q \<in> set (product_set self w)" by auto
    thus "q \<in> set (products w)" by (simp add: product_set_def)
    from d q show "product_pk q \<notin> product_pk ` set pre" by auto
  qed
  hence "list_all (\<lambda>q. q \<in> set (products (snd (process_products e pre None [] w)))) (p # post)"
    unfolding list_all_iff by blast
  with pi same have first:
    "(\<exists>x. fst (process_images e self w) = Raise x)
       \<and> list_all (\<lambda>q. q \<in> set (products (snd (process_images e self w)))) (p # post)
       \<and> products (snd (process_images e self w)) = products (snd (process_products e pre None [] w))
       \<and> requests (snd (process_images e self w)) = requests w"
    by (simp add: process_products_Raise_requests)
  have stop: "\<forall>us rest fn outs fs.
             process_urls e (us @ url # rest) fn outs fs = process_urls e (us @ [url]) fn outs fs"
    using process_urls_stops_at_failed_fetch[OF fails] by blast
  have early: "\<forall>x w1. process_products e pre None [] w = (Raise x, w1) \<longrightarrow>
             process_images e self w = (Raise x, w1)"
    using process_images_at_fatal_prefix[OF items] by blast
  have late: "\<forall>fn1 od1 w1. process_products e pre None [] w = (Return (fn1, od1), w1) \<longrightarrow>
             snd (process_images e self w) =
               w1\<lparr>files := snd (process_urls e (split CHR '','' (input_image_urls p)) fn1 [] (files w1))\<rparr>"
  proof (intro allI impI)
    fix fn1 od1 w1
    assume pre: "process_products e pre None [] w = (Return (fn1, od1), w1)"
    from process_urls_fetch_fails[OF url fails, of fn1 "[]" "files w1"]
    obtain y where "fst (process_urls e (split CHR '','' (input_image_urls p)) fn1 [] (files w1)) = Raise y"
      by auto
    from process_images_at_fatal_item[OF items pre this]
    show "snd (process_images e self w) =
               w1\<lparr>files := snd (process_urls e (split CHR '','' (input_image_urls p)) fn1 [] (files w1))\<rparr>"
      by simp
  qed
  from first stop early late show ?thesis by blast
qed

theorem fetch_failure_halts_batch_witness:
  "product_set job1 world0 = [widget] @ gadget # []
   \<and> ''http://x/c.jpg'' \<in> set (split CHR '','' (input_image_urls gadget))
   \<and> requests_get env0 ''http://x/c.jpg'' = None
   \<and> distinct (map product_pk (products world0))
   \<and> fst (process_images env0 job1 world0) = Raise ValueError
   \<and> list_all (\<lambda>q. q \<in> set (products (snd (process_images env0 job1 world0)))) [gadget]
   \<and> products (snd (process_images env0 job1 world0)) = products (snd (process_products env0 [widget] None [] world0))
   \<and> requests (snd (process_images env0 job1 world0)) = requests world0
   \<and> \<not> processed gadget \<and> \<not> completed job1
   \<and> product_set job7 world4 = [] @ tripod # [lamp]
   \<and> split CHR '','' (input_image_urls tripod) = [''http://x/a.jpg''] @ ''http://x/c.jpg'' # [''http://x/b.jpg'']
   \<and> distinct (map product_pk (products world4))
   \<and> process_urls env0 ([''http://x/a.jpg''] @ ''http://x/c.jpg'' # [''http://x/b.jpg'']) None [] []
        = process_urls env0 ([''http://x/a.jpg''] @ [''http://x/c.jpg'']) None [] []
   \<and> process_urls env0 (split CHR '','' (input_image_urls tripod)) None [] (files world4)
        = (Raise ValueError, [(''/srv/media/processed_images/compressed_a.jpg'', ''AA'')])
   \<and> snd (process_images env0 job7 world4)
        = world4\<lparr>files := [(''/srv/media/processed_images/compressed_a.jpg'', ''AA'')]\<rparr>
   \<and> list_all (\<lambda>q. q \<in> set (products (snd (process_images env0 job7 world4)))) [tripod, lamp]"
proof -
  have h1: "product_set job1 world0 = [widget] @ gadget # []" by code_simp
  have h2: "''http://x/c.jpg'' \<in> set (split CHR '','' (input_image_urls gadget))" by code_simp
  have h3: "requests_get env0 ''http://x/c.jpg'' = None" by code_simp
  have h4: "distinct (map product_pk (products world0))" by code_simp
  have v: "fst (process_images env0 job1 world0) = Raise ValueError" by code_simp
  have f: "\<not> processed gadget \<and> \<not> completed job1" by code_simp
  have g1: "product_set job7 world4 = [] @ tripod # [lamp]" by code_simp
  have g2: "split CHR '','' (input_image_urls tripod) = [''http://x/a.jpg''] @ ''http://x/c.jpg'' # [''http://x/b.jpg'']"
    by code_simp
  have g2': "''http://x/c.jpg'' \<in> set (split CHR '','' (input_image_urls tripod))" by code_simp
  have g4: "distinct (map product_pk (products world4))" by code_simp
  have g5: "process_products env0 [] None [] world4 = (Return (None, []), world4)" by simp
  have g6: "process_urls env0 (split CHR '','' (input_image_urls tripod)) None [] (files world4)
        = (Raise ValueError, [(''/srv/media/processed_images/compressed_a.jpg'', ''AA'')])" by code_simp
  note first = fetch_failure_halts_batch[OF h1 h2 h3 h4]
  note second = fetch_failure_halts_batch[OF g1 g2' h3 g4]
  from second have stop: "process_urls env0 ([''http://x/a.jpg''] @ ''http://x/c.jpg'' # [''http://x/b.jpg'']) None [] []
        = process_urls env0 ([''http://x/a.jpg''] @ [''http://x/c.jpg'']) None [] []" by blast
  from second g5 have "snd (process_images env0 job7 world4)
        = world4\<lparr>files := snd (process_urls env0 (split CHR '','' (input_image_urls tripod)) None [] (files world4))\<rparr>"
    by blast
  with g6 have fin: "snd (process_images env0 job7 world4)
        = world4\<lparr>files := [(''/srv/media/processed_images/compressed_a.jpg'', ''AA'')]\<rparr>" by simp
  from second have keep: "list_all (\<lambda>q. q \<in> set (products (snd (process_images env0 job7 world4)))) (tripod # [lamp])"
    by blast
  from first h1 h2 h3 h4 v f g1 g2 g4 stop g6 fin keep show ?thesis by blast
qed



text \<open>
  C9. An item whose URL field is the empty string: the field splits into the one-element
  list holding the empty string (a split never gives the empty list), so the one
  request made is for the empty URL. When that request fails, the pass over the URLs
  raises \<open>ValueError\<close> whatever came before, and the batch ends at this item: its row
  and the rows of the later items are untouched, the product table is what the earlier
  items left, and no request row changes.
\<close>

theorem empty_urls_field_is_fatal:
  assumes "product_set self w = pre @ p # post"
      and "input_image_urls p = []"
      and "requests_get e [] = None"
      and "distinct (map product_pk (products w))"
  shows "split CHR '','' (input_image_urls p) = [[]]
       \<and> (\<forall>s. split CHR '','' s \<noteq> [])
       \<and> (\<forall>fn outs fs. process_urls e (split CHR '','' (input_image_urls p)) fn outs fs = (Raise ValueError, fs))
       \<and> (\<exists>x. fst (process_images e self w) = Raise x)
       \<and> list_all (\<lambda>q. q \<in> set (products (snd (process_images e self w)))) (p # post)
       \<and> products (snd (process_images e self w)) = products (snd (process_products e pre None [] w))
       \<and> requests (snd (process_images e self w)) = requests w"
proof -
  have s: "split CHR '','' (input_image_urls p) = [[]]" using assms(2) by simp
  have u: "[] \<in> set (split CHR '','' (input_image_urls p))" using s by simp
  have a: "\<forall>s. split CHR '','' s \<noteq> []" by (simp add: split_not_Nil)
  have b: "\<forall>fn outs fs. process_urls e (split CHR '','' (input_image_urls p)) fn outs fs = (Raise ValueError, fs)"
    using s assms(3) by simp
  from fatal_item_halts_batch[OF assms(1) u assms(3) assms(4)] s a b
  show ?thesis by blast
qed

theorem empty_urls_field_is_fatal_witness:
  "product_set job4 world2 = [] @ sticker # [poster]
   \<and> input_image_urls sticker = []
   \<and> requests_get env0 [] = None
   \<and> distinct (map product_pk (products world2))
   \<and> split CHR '','' (input_image_urls sticker) = [[]]
   \<and> (\<forall>fn outs fs. process_urls env0 (split CHR '','' (input_image_urls sticker)) fn outs fs = (Raise ValueError, fs))
   \<and> list_all (\<lambda>q. q \<in> set (products (snd (process_images env0 job4 world2)))) [sticker, poster]
   \<and> requests (snd (process_images env0 job4 world2)) = requests world2
   \<and> run env0 ''job-4'' world2 = (Return (), world2)"
proof -
  have h1: "product_set job4 world2 = [] @ sticker # [poster]" by code_simp
  have h2: "input_image_urls sticker = []" by code_simp
  have h3: "requests_get env0 [] = None" by code_simp
  have h4: "distinct (map product_pk (products world2))" by code_simp
  have v: "run env0 ''job-4'' world2 = (Return (), world2)" by code_simp
  from empty_urls_field_is_fatal[OF h1 h2 h3 h4] h1 h2 h3 h4 v show ?thesis by blast
qed

section \<open>The claims about the batch runner\<close>

text \<open>
  C3. Through one run of a job, a completed flag that is set stays set. A flag that the
  run sets was still unset after the pass over the items and after
  \<^verbatim>\<open>generate_csv\<close> had stored the artifact and saved its name, at which point every
  item of the job was marked processed and the file store held the artifact, the CSV
  content of the summary rows, under the name saved in the row; the final state is the
  result of \<^verbatim>\<open>complete_request\<close> on that state, the last write of the run, and still
  holds the artifact under that name.
\<close>

theorem completed_only_after_items_and_artifact:
  assumes "run e rid w = (res, w')"
  shows "(job_completed w rid \<longrightarrow> job_completed w' rid)
       \<and> (\<not> job_completed w rid \<and> job_completed w' rid \<longrightarrow>
            items_processed w' rid \<and> job_artifact w' rid \<noteq> None
            \<and> (\<exists>self fn od w1 self1 w2.
                  job_row w rid = Some self
                  \<and> process_products e (product_set self w) None [] w = (Return (fn, od), w1)
                  \<and> \<not> job_completed w1 rid
                  \<and> generate_csv e self od w1 = (Return self1, w2)
                  \<and> \<not> job_completed w2 rid \<and> items_processed w2 rid \<and> job_artifact w2 rid \<noteq> None
                  \<and> complete_request e self1 w2 = (Return (self1\<lparr>completed := True\<rparr>), w')
                  \<and> (\<exists>stored. job_artifact w2 rid = Some stored
                        \<and> (stored, csv_file_content od) \<in> set (files w2)
                        \<and> job_artifact w' rid = Some stored
                        \<and> (stored, csv_file_content od) \<in> set (files w'))))"
proof (cases "job_row w rid")
  case None
  with assms have "w' = w" by (simp add: run_def init_def job_row_def)
  thus ?thesis by simp
next
  case (Some self)
  show ?thesis
  proof (cases "makedirs_ok e")
    case False
    with Some assms have "w' = w" by (simp add: run_def init_def job_row_def catch_ValueError_def)
    thus ?thesis by simp
  next
    case True
    with Some assms have "process_images e self w = (fst (process_images e self w), w')"
      by (auto simp: run_def init_def job_row_def split: prod.splits)
    from process_images_job[OF Some this] Some show ?thesis by blast
  qed
qed

theorem completed_only_after_items_and_artifact_witness:
  "run env0 ''job-2'' world1 = (Return (), snd (run env0 ''job-2'' world1))
   \<and> \<not> job_completed world1 ''job-2''
   \<and> job_completed (snd (run env0 ''job-2'' world1)) ''job-2''
   \<and> items_processed (snd (run env0 ''job-2'' world1)) ''job-2''
   \<and> job_artifact (snd (run env0 ''job-2'' world1)) ''job-2'' = Some ''results/result_file.csv''
   \<and> (''results/result_file.csv'',
        csv_file_content [(7, ''Camera'', ''http://x/a.jpg,http://x/huge.png,http://x/b.jpg'',
          ''/media/processed_images/compressed_a.jpg,/media/processed_images/compressed_b.jpg'')])
        \<in> set (files (snd (run env0 ''job-2'' world1)))
   \<and> job_completed (snd (run env0 ''job-2'' (snd (run env0 ''job-2'' world1)))) ''job-2''
   \<and> \<not> job_completed (snd (run env0 ''job-1'' world1)) ''job-1''"
proof -
  have h: "run env0 ''job-2'' world1 = (Return (), snd (run env0 ''job-2'' world1))" by code_simp
  have n: "\<not> job_completed world1 ''job-2''" by code_simp
  have c: "job_completed (snd (run env0 ''job-2'' world1)) ''job-2''" by code_simp
  have f: "\<not> job_completed (snd (run env0 ''job-1'' world1)) ''job-1''" by code_simp
  have s: "job_artifact (snd (run env0 ''job-2'' world1)) ''job-2'' = Some ''results/result_file.csv''"
    by code_simp
  have i: "(''results/result_file.csv'',
        csv_file_content [(7, ''Camera'', ''http://x/a.jpg,http://x/huge.png,http://x/b.jpg'',
          ''/media/processed_images/compressed_a.jpg,/media/processed_images/compressed_b.jpg'')])
        \<in> set (files (snd (run env0 ''job-2'' world1)))" by code_simp
  have a: "run env0 ''job-2'' (snd (run env0 ''job-2'' world1))
        = (fst (run env0 ''job-2'' (snd (run env0 ''job-2'' world1))),
           snd (run env0 ''job-2'' (snd (run env0 ''job-2'' world1))))" by simp
  from completed_only_after_items_and_artifact[OF h] completed_only_after_items_and_artifact[OF a]
    h n c f s i
  show ?thesis by blast
qed

text \<open>
  C8. The claim: \<^verbatim>\<open>run\<close> never propagates an error. \<^verbatim>\<open>run\<close> catches \<open>ValueError\<close>
  only, and \<^verbatim>\<open>product.save()\<close> stands outside every \<^verbatim>\<open>try\<close>: when the record store
  refuses the first product of job 1, the database error leaves \<^verbatim>\<open>run\<close>.
\<close>

theorem run_propagates_database_error:
  "fst (run env_db_down ''job-1'' world0) = Raise DatabaseError"
  by code_simp

text \<open>
  C8, as amended. \<^verbatim>\<open>run\<close> never ends with a \<open>ValueError\<close>. It returns normally, with
  the state reached, for an unknown request id; when a URL cannot be fetched; when
  an image file cannot be written; when \<^verbatim>\<open>generate_csv\<close> fails; and when
  \<^verbatim>\<open>complete_request\<close> fails. It ends with the exception when the output directory
  cannot be made (\<open>OSError\<close>) and when \<^verbatim>\<open>product.save()\<close> fails (\<open>DatabaseError\<close>).
  For a failure inside the loop, the items before and the URLs before are taken to have
  passed, so that the failure named is the first of the run.
\<close>

theorem run_catches_ValueError:
  "fst (run e rid w) \<noteq> Raise ValueError
   \<and> (job_row w rid = None \<longrightarrow> run e rid w = (Return (), w))
   \<and> (job_row w rid \<noteq> None \<and> \<not> makedirs_ok e \<longrightarrow> run e rid w = (Raise OSError, w))
   \<and> (job_row w rid = Some self \<and> makedirs_ok e
        \<and> product_set self w = pre @ p # post
        \<and> process_products e pre None [] w = (Return (fn1, od1), w1)
        \<and> split CHR '','' (input_image_urls p) = us @ url # rest
        \<and> process_urls e us fn1 [] (files w1) = (Return (fn2, outs2), fs2)
        \<and> requests_get e url = None
        \<longrightarrow> run e rid w = (Return (), w1\<lparr>files := fs2\<rparr>))
   \<and> (job_row w rid = Some self \<and> makedirs_ok e
        \<and> product_set self w = pre @ p # post
        \<and> process_products e pre None [] w = (Return (fn1, od1), w1)
        \<and> split CHR '','' (input_image_urls p) = us @ url # rest
        \<and> process_urls e us fn1 [] (files w1) = (Return (fn2, outs2), fs2)
        \<and> requests_get e url = Some content \<and> image_recompress e content = Recompressed d
        \<and> \<not> file_write e (path_join (output_directory e) [compressed_name url]) d
        \<longrightarrow> run e rid w = (Return (), w1\<lparr>files := fs2\<rparr>))
   \<and> (job_row w rid = Some self \<and> makedirs_ok e
        \<and> product_set self w = pre @ p # post
        \<and> process_products e pre None [] w = (Return (fn1, od1), w1)
        \<and> process_urls e (split CHR '','' (input_image_urls p)) fn1 [] (files w1) = (Return (fn3, outs3), fs3)
        \<and> \<not> product_save_ok e (p\<lparr>output_image_urls := join '','' outs3, processed := True\<rparr>)
        \<longrightarrow> run e rid w = (Raise DatabaseError, w1\<lparr>files := fs3\<rparr>))
   \<and> (job_row w rid = Some self \<and> makedirs_ok e
        \<and> process_products e (product_set self w) None [] w = (Return (fn4, od4), w4)
        \<and> generate_csv e self od4 w4 = (Raise x, w5)
        \<longrightarrow> run e rid w = (Return (), w5))
   \<and> (job_row w rid = Some self \<and> makedirs_ok e
        \<and> process_products e (product_set self w) None [] w = (Return (fn4, od4), w4)
        \<and> generate_csv e self od4 w4 = (Return self1, w5)
        \<and> complete_request e self1 w5 = (Raise y, w6)
        \<longrightarrow> run e rid w = (Return (), w6))"
proof (intro conjI impI)
  show "fst (run e rid w) \<noteq> Raise ValueError"
    using run_raises[of e rid w ValueError] by auto
  show "run e rid w = (Return (), w)" if "job_row w rid = None"
    using that by (simp add: run_def init_def job_row_def catch_ValueError_def)
  show "run e rid w = (Raise OSError, w)" if "job_row w rid \<noteq> None \<and> \<not> makedirs_ok e"
    using that by (auto simp: run_def init_def job_row_def catch_ValueError_def)
next
  assume a: "job_row w rid = Some self \<and> makedirs_ok e
        \<and> product_set self w = pre @ p # post
        \<and> process_products e pre None [] w = (Return (fn1, od1), w1)
        \<and> split CHR '','' (input_image_urls p) = us @ url # rest
        \<and> process_urls e us fn1 [] (files w1) = (Return (fn2, outs2), fs2)
        \<and> requests_get e url = None"
  hence "process_urls e (split CHR '','' (input_image_urls p)) fn1 [] (files w1) = (Raise ValueError, fs2)"
    by (simp add: process_urls_append)
  hence "fst (process_urls e (split CHR '','' (input_image_urls p)) fn1 [] (files w1)) = Raise ValueError"
    and "snd (process_urls e (split CHR '','' (input_image_urls p)) fn1 [] (files w1)) = fs2"
    by simp_all
  with process_images_at_fatal_item[of self w pre p post e fn1 od1 w1 ValueError] a
  have "process_images e self w = (Raise ValueError, w1\<lparr>files := fs2\<rparr>)" by simp
  with run_with_job[of w rid self e] a show "run e rid w = (Return (), w1\<lparr>files := fs2\<rparr>)"
    by (simp add: catch_ValueError_def)
next
  assume a: "job_row w rid = Some self \<and> makedirs_ok e
        \<and> product_set self w = pre @ p # post
        \<and> process_products e pre None [] w = (Return (fn1, od1), w1)
        \<and> split CHR '','' (input_image_urls p) = us @ url # rest
        \<and> process_urls e us fn1 [] (files w1) = (Return (fn2, outs2), fs2)
        \<and> requests_get e url = Some content \<and> image_recompress e content = Recompressed d
        \<and> \<not> file_write e (path_join (output_directory e) [compressed_name url]) d"
  hence "process_urls e (split CHR '','' (input_image_urls p)) fn1 [] (files w1) = (Raise ValueError, fs2)"
    by (simp add: process_urls_append Let_def)
  hence "fst (process_urls e (split CHR '','' (input_image_urls p)) fn1 [] (files w1)) = Raise ValueError"
    and "snd (process_urls e (split CHR '','' (input_image_urls p)) fn1 [] (files w1)) = fs2"
    by simp_all
  with process_images_at_fatal_item[of self w pre p post e fn1 od1 w1 ValueError] a
  have "process_images e self w = (Raise ValueError, w1\<lparr>files := fs2\<rparr>)" by simp
  with run_with_job[of w rid self e] a show "run e rid w = (Return (), w1\<lparr>files := fs2\<rparr>)"
    by (simp add: catch_ValueError_def)
next
  assume a: "job_row w rid = Some self \<and> makedirs_ok e
        \<and> product_set self w = pre @ p # post
        \<and> process_products e pre None [] w = (Return (fn1, od1), w1)
        \<and> process_urls e (split CHR '','' (input_image_urls p)) fn1 [] (files w1) = (Return (fn3, outs3), fs3)
        \<and> \<not> product_save_ok e (p\<lparr>output_image_urls := join '','' outs3, processed := True\<rparr>)"
  with process_images_save_fails[of self w pre p post e fn1 od1 w1 fn3 outs3 fs3]
  have "process_images e self w = (Raise DatabaseError, w1\<lparr>files := fs3\<rparr>)" by simp
  with run_with_job[of w rid self e] a show "run e rid w = (Raise DatabaseError, w1\<lparr>files := fs3\<rparr>)"
    by (simp add: catch_ValueError_def)
next
  assume a: "job_row w rid = Some self \<and> makedirs_ok e
        \<and> process_products e (product_set self w) None [] w = (Return (fn4, od4), w4)
        \<and> generate_csv e self od4 w4 = (Raise x, w5)"
  hence "process_images e self w = (Raise ValueError, w5)" by (simp add: process_images_def)
  with run_with_job[of w rid self e] a show "run e rid w = (Return (), w5)"
    by (simp add: catch_ValueError_def)
next
  assume a: "job_row w rid = Some self \<and> makedirs_ok e
        \<and> process_products e (product_set self w) None [] w = (Return (fn4, od4), w4)
        \<and> generate_csv e self od4 w4 = (Return self1, w5)
        \<and> complete_request e self1 w5 = (Raise y, w6)"
  hence "process_images e self w = (Raise ValueError, w6)" by (simp add: process_images_def)
  with run_with_job[of w rid self e] a show "run e rid w = (Return (), w6)"
    by (simp add: catch_ValueError_def)
qed

theorem run_catches_ValueError_witness:
  "run env0 ''no-such-job'' world0 = (Return (), world0)
   \<and> run env_no_dir ''job-1'' world0 = (Raise OSError, world0)
   \<and> requests_get env0 ''http://x/c.jpg'' = None
   \<and> run env0 ''job-1'' world0 =
        (Return (), (snd (process_products env0 [widget] None [] world0))
                      \<lparr>files := files (snd (process_products env0 [widget] None [] world0))\<rparr>)
   \<and> \<not> file_write env_disk_full (path_join (output_directory env_disk_full) [compressed_name ''http://x/a.jpg'']) ''AA''
   \<and> run env_disk_full ''job-1'' world0 = (Return (), world0\<lparr>files := files world0\<rparr>)
   \<and> \<not> product_save_ok env_db_down
          (widget\<lparr>output_image_urls := join '',''
              [''/media/processed_images/compressed_a.jpg'', ''/media/processed_images/compressed_b.jpg''],
            processed := True\<rparr>)
   \<and> run env_db_down ''job-1'' world0 =
        (Raise DatabaseError,
         world0\<lparr>files := [(''/srv/media/processed_images/compressed_a.jpg'', ''AA''),
                           (''/srv/media/processed_images/compressed_b.jpg'', ''BB'')]\<rparr>)
   \<and> fst (generate_csv env_no_storage job2
          [(7, ''Camera'', ''http://x/a.jpg,http://x/huge.png,http://x/b.jpg'',
            ''/media/processed_images/compressed_a.jpg,/media/processed_images/compressed_b.jpg'')]
          (snd (process_products env_no_storage (product_set job2 world1) None [] world1))) = Raise ValueError
   \<and> run env_no_storage ''job-2'' world1 =
        (Return (), snd (process_products env_no_storage (product_set job2 world1) None [] world1))
   \<and> fst (complete_request env_no_complete (job2\<lparr>result_file := Some ''results/result_file.csv''\<rparr>)
          (snd (generate_csv env_no_complete job2
            [(7, ''Camera'', ''http://x/a.jpg,http://x/huge.png,http://x/b.jpg'',
              ''/media/processed_images/compressed_a.jpg,/media/processed_images/compressed_b.jpg'')]
            (snd (process_products env_no_complete (product_set job2 world1) None [] world1))))) = Raise ValueError
   \<and> run env_no_complete ''job-2'' world1 =
        (Return (), snd (generate_csv env_no_complete job2
            [(7, ''Camera'', ''http://x/a.jpg,http://x/huge.png,http://x/b.jpg'',
              ''/media/processed_images/compressed_a.jpg,/media/processed_images/compressed_b.jpg'')]
            (snd (process_products env_no_complete (product_set job2 world1) None [] world1))))"
proof -
  let ?wrow = "(1 :: int, ''Widget'', ''http://x/a.jpg,http://x/b.jpg'',
      ''/media/processed_images/compressed_a.jpg,/media/processed_images/compressed_b.jpg'')"
  let ?crow = "(7 :: int, ''Camera'', ''http://x/a.jpg,http://x/huge.png,http://x/b.jpg'',
      ''/media/processed_images/compressed_a.jpg,/media/processed_images/compressed_b.jpg'')"
  let ?w1 = "snd (process_products env0 [widget] None [] world0)"
  let ?w4 = "snd (process_products env_no_storage (product_set job2 world1) None [] world1)"
  let ?v4 = "snd (process_products env_no_complete (product_set job2 world1) None [] world1)"
  let ?v5 = "snd (generate_csv env_no_complete job2 [?crow] ?v4)"
  have none: "job_row world0 ''no-such-job'' = None" by code_simp
  have j1: "job_row world0 ''job-1'' = Some job1" by code_simp
  have j1': "job_row world0 ''job-1'' \<noteq> None" using j1 by simp
  have j2: "job_row world1 ''job-2'' = Some job2" by code_simp
  have nd: "\<not> makedirs_ok env_no_dir" by (simp add: env_no_dir_def)
  have m0: "makedirs_ok env0" by (simp add: env0_def)
  have md: "makedirs_ok env_disk_full" by (simp add: env_disk_full_def env0_def)
  have mb: "makedirs_ok env_db_down" by (simp add: env_db_down_def env0_def)
  have ms: "makedirs_ok env_no_storage" by (simp add: env_no_storage_def env0_def)
  have mc: "makedirs_ok env_no_complete" by (simp add: env_no_complete_def env0_def)
  \<comment> \<open>a fetch failure at the second item\<close>
  have a1: "product_set job1 world0 = [widget] @ gadget # []" by code_simp
  have a2: "process_products env0 [widget] None [] world0 = (Return (Some ''compressed_b.jpg'', [?wrow]), ?w1)"
    by code_simp
  have a3: "split CHR '','' (input_image_urls gadget) = [] @ ''http://x/c.jpg'' # []" by code_simp
  have a4: "process_urls env0 [] (Some ''compressed_b.jpg'') [] (files ?w1) = (Return (Some ''compressed_b.jpg'', []), files ?w1)"
    by simp
  have a5: "requests_get env0 ''http://x/c.jpg'' = None" by code_simp
  from run_catches_ValueError[where e = env0 and rid = "''job-1''" and w = world0 and self = job1
      and pre = "[widget]" and p = gadget and post = "[]" and ?fn1.0 = "Some ''compressed_b.jpg''"
      and ?od1.0 = "[?wrow]" and ?w1.0 = ?w1 and us = "[]" and url = "''http://x/c.jpg''" and rest = "[]"
      and ?fn2.0 = "Some ''compressed_b.jpg''" and ?outs2.0 = "[]" and ?fs2.0 = "files ?w1"]
    j1 m0 a1 a2 a3 a4 a5
  have A: "run env0 ''job-1'' world0 = (Return (), ?w1\<lparr>files := files ?w1\<rparr>)" by blast
  \<comment> \<open>a failed write at the first URL of the first item\<close>
  have b1: "product_set job1 world0 = [] @ widget # [gadget]" by code_simp
  have b2: "process_products env_disk_full [] None [] world0 = (Return (None, []), world0)" by simp
  have b3: "split CHR '','' (input_image_urls widget) = [] @ ''http://x/a.jpg'' # [''http://x/b.jpg'']" by code_simp
  have b4: "process_urls env_disk_full [] None [] (files world0) = (Return (None, []), files world0)" by simp
  have b5: "requests_get env_disk_full ''http://x/a.jpg'' = Some ''AAAA''" by code_simp
  have b6: "image_recompress env_disk_full ''AAAA'' = Recompressed ''AA''" by code_simp
  have b7: "\<not> file_write env_disk_full (path_join (output_directory env_disk_full) [compressed_name ''http://x/a.jpg'']) ''AA''"
    by (simp add: env_disk_full_def)
  from run_catches_ValueError[where e = env_disk_full and rid = "''job-1''" and w = world0 and self = job1
      and pre = "[]" and p = widget and post = "[gadget]" and ?fn1.0 = None
      and ?od1.0 = "[]" and ?w1.0 = world0 and us = "[]" and url = "''http://x/a.jpg''" and rest = "[''http://x/b.jpg'']"
      and ?fn2.0 = None and ?outs2.0 = "[]" and ?fs2.0 = "files world0" and content = "''AAAA''" and d = "''AA''"]
    j1 md b1 b2 b3 b4 b5 b6 b7
  have B: "run env_disk_full ''job-1'' world0 = (Return (), world0\<lparr>files := files world0\<rparr>)" by blast
  \<comment> \<open>the record store refuses the first item\<close>
  have c2: "process_products env_db_down [] None [] world0 = (Return (None, []), world0)" by simp
  have c3: "process_urls env_db_down (split CHR '','' (input_image_urls widget)) None [] (files world0) =
      (Return (Some ''compressed_b.jpg'',
         [''/media/processed_images/compressed_a.jpg'', ''/media/processed_images/compressed_b.jpg'']),
       [(''/srv/media/processed_images/compressed_a.jpg'', ''AA''),
        (''/srv/media/processed_images/compressed_b.jpg'', ''BB'')])"
    by code_simp
  have c4: "\<not> product_save_ok env_db_down
          (widget\<lparr>output_image_urls := join '',''
              [''/media/processed_images/compressed_a.jpg'', ''/media/processed_images/compressed_b.jpg''],
            processed := True\<rparr>)"
    by (simp add: env_db_down_def)
  from run_catches_ValueError[where e = env_db_down and rid = "''job-1''" and w = world0 and self = job1
      and pre = "[]" and p = widget and post = "[gadget]" and ?fn1.0 = None
      and ?od1.0 = "[]" and ?w1.0 = world0 and ?fn3.0 = "Some ''compressed_b.jpg''"
      and ?outs3.0 = "[''/media/processed_images/compressed_a.jpg'', ''/media/processed_images/compressed_b.jpg'']"
      and ?fs3.0 = "[(''/srv/media/processed_images/compressed_a.jpg'', ''AA''),
        (''/srv/media/processed_images/compressed_b.jpg'', ''BB'')]"]
    j1 mb b1 c2 c3 c4
  have C: "run env_db_down ''job-1'' world0 =
        (Raise DatabaseError,
         world0\<lparr>files := [(''/srv/media/processed_images/compressed_a.jpg'', ''AA''),
                           (''/srv/media/processed_images/compressed_b.jpg'', ''BB'')]\<rparr>)" by blast
  \<comment> \<open>the artifact cannot be stored\<close>
  have d1: "process_products env_no_storage (product_set job2 world1) None [] world1 =
      (Return (Some ''compressed_b.jpg'', [?crow]), ?w4)" by code_simp
  have d2: "generate_csv env_no_storage job2 [?crow] ?w4 = (Raise ValueError, ?w4)" by code_simp
  from run_catches_ValueError[where e = env_no_storage and rid = "''job-2''" and w = world1 and self = job2
      and ?fn4.0 = "Some ''compressed_b.jpg''" and ?od4.0 = "[?crow]" and ?w4.0 = ?w4
      and x = ValueError and ?w5.0 = ?w4]
    j2 ms d1 d2
  have D: "run env_no_storage ''job-2'' world1 = (Return (), ?w4)" by blast
  \<comment> \<open>the completed flag cannot be saved\<close>
  have e1: "process_products env_no_complete (product_set job2 world1) None [] world1 =
      (Return (Some ''compressed_b.jpg'', [?crow]), ?v4)" by code_simp
  have e2: "generate_csv env_no_complete job2 [?crow] ?v4 =
      (Return (job2\<lparr>result_file := Some ''results/result_file.csv''\<rparr>), ?v5)" by code_simp
  have e3: "complete_request env_no_complete (job2\<lparr>result_file := Some ''results/result_file.csv''\<rparr>) ?v5
      = (Raise ValueError, ?v5)" by code_simp
  from run_catches_ValueError[where e = env_no_complete and rid = "''job-2''" and w = world1 and self = job2
      and ?fn4.0 = "Some ''compressed_b.jpg''" and ?od4.0 = "[?crow]" and ?w4.0 = ?v4
      and ?self1.0 = "job2\<lparr>result_file := Some ''results/result_file.csv''\<rparr>" and ?w5.0 = ?v5
      and y = ValueError and ?w6.0 = ?v5]
    j2 mc e1 e2 e3
  have E: "run env_no_complete ''job-2'' world1 = (Return (), ?v5)" by blast
  from run_catches_ValueError[where e = env0 and rid = "''no-such-job''" and w = world0,
      THEN conjunct2, THEN conjunct1] none
  have F: "run env0 ''no-such-job'' world0 = (Return (), world0)" by blast
  from run_catches_ValueError[where e = env_no_dir and rid = "''job-1''" and w = world0,
      THEN conjunct2, THEN conjunct2, THEN conjunct1] j1' nd
  have G: "run env_no_dir ''job-1'' world0 = (Raise OSError, world0)" by blast
  from d2 have d2': "fst (generate_csv env_no_storage job2 [?crow] ?w4) = Raise ValueError" by simp
  from e3 have e3': "fst (complete_request env_no_complete (job2\<lparr>result_file := Some ''results/result_file.csv''\<rparr>) ?v5)
      = Raise ValueError" by simp
  from A B C D E F G a5 b7 c4 d2' e3' show ?thesis by blast
qed

section \<open>Reading back what the writer wrote\<close>

lemma in_field_plain:
  "state r = IN_FIELD \<Longrightarrow> \<not> list_ex special cs \<Longrightarrow>
     read_chars r mid (cs @ rest) = read_chars (r\<lparr>field := field r @ cs\<rparr>) (mid \<or> cs \<noteq> []) rest"
proof (induction cs arbitrary: r mid)
  case Nil
  then show ?case by simp
next
  case (Cons c cs)
  from Cons.prems have "\<not> special c" and cs: "\<not> list_ex special cs" by simp_all
  hence c: "c \<noteq> CHR '',''" "c \<noteq> DQ" "c \<noteq> CR" "c \<noteq> LF" by (simp_all add: special_def)
  have st: "state (parse_add_char r c) = IN_FIELD" using Cons.prems(1) by (simp add: parse_add_char_def)
  have "read_chars r mid ((c # cs) @ rest) = read_chars (parse_add_char r c) True (cs @ rest)"
    using Cons.prems(1) c by (simp add: parse_process_char_def)
  also have "\<dots> = read_chars ((parse_add_char r c)\<lparr>field := field (parse_add_char r c) @ cs\<rparr>) (True \<or> cs \<noteq> []) rest"
    by (rule Cons.IH[OF st cs])
  finally show ?case by (simp add: parse_add_char_def)
qed

lemma in_quoted_escape:
  "state r = IN_QUOTED_FIELD \<Longrightarrow>
     read_chars r mid (escape cs @ DQ # rest) =
     read_chars (r\<lparr>field := field r @ cs, state := QUOTE_IN_QUOTED_FIELD\<rparr>) True rest"
proof (induction cs arbitrary: r mid)
  case Nil
  then show ?case by (simp add: parse_process_char_def)
next
  case (Cons c cs)
  have st: "state (parse_add_char r c) = IN_QUOTED_FIELD"
    using Cons.prems by (simp add: parse_add_char_def)
  show ?case
  proof (cases "c = DQ")
    case True
    have "read_chars r mid (escape (c # cs) @ DQ # rest)
            = read_chars ((parse_add_char r c)\<lparr>state := IN_QUOTED_FIELD\<rparr>) True (escape cs @ DQ # rest)"
      using Cons.prems True by (simp add: parse_process_char_def parse_add_char_def)
    also have "\<dots> = read_chars (((parse_add_char r c)\<lparr>state := IN_QUOTED_FIELD\<rparr>)
                 \<lparr>field := field ((parse_add_char r c)\<lparr>state := IN_QUOTED_FIELD\<rparr>) @ cs,
                   state := QUOTE_IN_QUOTED_FIELD\<rparr>) True rest"
      by (rule Cons.IH) simp
    finally show ?thesis by (simp add: parse_add_char_def)
  next
    case False
    have "read_chars r mid (escape (c # cs) @ DQ # rest)
            = read_chars (parse_add_char r c) (c \<noteq> LF) (escape cs @ DQ # rest)"
      using Cons.prems False by (simp add: parse_process_char_def parse_add_char_def)
    also have "\<dots> = read_chars ((parse_add_char r c)\<lparr>field := field (parse_add_char r c) @ cs,
                   state := QUOTE_IN_QUOTED_FIELD\<rparr>) True rest"
      by (rule Cons.IH[OF st])
    finally show ?thesis by (simp add: parse_add_char_def)
  qed
qed

text \<open>A written field followed by the comma or the carriage return that ends it.\<close>

definition after_field :: "reader \<Rightarrow> string \<Rightarrow> char \<Rightarrow> reader" where
  "after_field r f d =
     r\<lparr>row := row r @ [f], field := [], state := (if d = CHR '','' then START_FIELD else EAT_CRNL)\<rparr>"

lemma read_written_field:
  assumes d: "d = CHR '','' \<or> d = CR"
      and st: "state r = START_FIELD \<or> (state r = START_RECORD \<and> (f \<noteq> [] \<or> d = CHR '',''))"
      and e: "field r = []"
  shows "read_chars r mid (write_field f @ d # rest) = read_chars (after_field r f d) True rest"
proof (cases "list_ex special f")
  case True
  have q: "read_chars r mid (write_field f @ d # rest)
             = read_chars (r\<lparr>state := IN_QUOTED_FIELD\<rparr>) True (escape f @ DQ # d # rest)"
    using True st by (auto simp: write_field_def parse_process_char_def start_field_def)
  have "read_chars (r\<lparr>state := IN_QUOTED_FIELD\<rparr>) True (escape f @ DQ # d # rest)
          = read_chars ((r\<lparr>state := IN_QUOTED_FIELD\<rparr>)\<lparr>field := field (r\<lparr>state := IN_QUOTED_FIELD\<rparr>) @ f,
               state := QUOTE_IN_QUOTED_FIELD\<rparr>) True (d # rest)"
    by (rule in_quoted_escape) simp
  also have "\<dots> = read_chars (after_field r f d) True rest"
    using d e by (auto simp: parse_process_char_def parse_save_field_def after_field_def)
  finally show ?thesis using q by simp
next
  case False
  show ?thesis
  proof (cases f)
    case Nil
    with False st d e show ?thesis
      by (auto simp: write_field_def parse_process_char_def start_field_def parse_save_field_def after_field_def)
  next
    case (Cons c cs)
    from False Cons have "\<not> special c" and cs: "\<not> list_ex special cs" by simp_all
    hence c: "c \<noteq> CHR '',''" "c \<noteq> DQ" "c \<noteq> CR" "c \<noteq> LF" by (simp_all add: special_def)
    have "read_chars r mid (write_field f @ d # rest)
            = read_chars ((parse_add_char r c)\<lparr>state := IN_FIELD\<rparr>) True (cs @ d # rest)"
      using False Cons st c by (auto simp: write_field_def parse_process_char_def start_field_def)
    also have "\<dots> = read_chars (((parse_add_char r c)\<lparr>state := IN_FIELD\<rparr>)
                 \<lparr>field := field ((parse_add_char r c)\<lparr>state := IN_FIELD\<rparr>) @ cs\<rparr>) (True \<or> cs \<noteq> []) (d # rest)"
      by (rule in_field_plain) (simp_all add: cs)
    also have "\<dots> = read_chars (after_field r f d) True rest"
      using d e Cons by (auto simp: parse_process_char_def parse_save_field_def parse_add_char_def after_field_def)
    finally show ?thesis .
  qed
qed

lemma read_written_fields:
  assumes "state r = START_FIELD \<or> (state r = START_RECORD \<and> (f \<noteq> [] \<or> fs \<noteq> []))"
      and "field r = []"
  shows "read_chars r mid (join '','' (map write_field (f # fs)) @ CR # LF # rest)
           = apfst ((#) (row r @ f # fs)) (read_chars parse_reset False rest)"
  using assms
proof (induction fs arbitrary: f r mid)
  case Nil
  have "read_chars r mid (write_field f @ CR # LF # rest) = read_chars (after_field r f CR) True (LF # rest)"
    by (rule read_written_field) (use Nil in auto)
  also have "\<dots> = apfst ((#) (row r @ [f])) (read_chars parse_reset False rest)"
    by (simp add: after_field_def parse_process_char_def)
  finally show ?case by simp
next
  case (Cons g gs)
  have "read_chars r mid (write_field f @ CHR '','' # join '','' (map write_field (g # gs)) @ CR # LF # rest)
          = read_chars (after_field r f (CHR '','')) True (join '','' (map write_field (g # gs)) @ CR # LF # rest)"
    by (rule read_written_field) (use Cons.prems in auto)
  also have "\<dots> = apfst ((#) (row (after_field r f (CHR '','')) @ g # gs)) (read_chars parse_reset False rest)"
    by (rule Cons.IH) (simp_all add: after_field_def)
  finally show ?case by (simp add: after_field_def)
qed

lemma read_writerow:
  "read_chars parse_reset mid (writerow fs @ rest) = apfst ((#) fs) (read_chars parse_reset False rest)"
proof (cases fs)
  case Nil
  then show ?thesis
    by (simp add: writerow_def parse_reset_def parse_process_char_def)
next
  case (Cons f gs)
  show ?thesis
  proof (cases "fs = [[]]")
    case True
    then show ?thesis
      by (simp add: writerow_def parse_reset_def parse_process_char_def start_field_def parse_save_field_def)
  next
    case False
    with Cons have ne: "f \<noteq> [] \<or> gs \<noteq> []" by auto
    have "read_chars parse_reset mid (join '','' (map write_field (f # gs)) @ CR # LF # rest)
            = apfst ((#) (row parse_reset @ f # gs)) (read_chars parse_reset False rest)"
      by (rule read_written_fields) (use ne in \<open>auto simp: parse_reset_def\<close>)
    moreover have "writerow fs = join '','' (map write_field (f # gs)) @ [CR, LF]"
      using False Cons ne by (auto simp: writerow_def)
    ultimately show ?thesis using Cons by (simp add: parse_reset_def)
  qed
qed

lemma read_writerows:
  "read_chars parse_reset False (concat (map writerow rows)) = (rows, None)"
proof (induction rows)
  case Nil
  then show ?case by (simp add: parse_reset_def)
next
  case (Cons fs rows)
  have "read_chars parse_reset False (writerow fs @ concat (map writerow rows))
          = apfst ((#) fs) (read_chars parse_reset False (concat (map writerow rows)))"
    by (rule read_writerow)
  with Cons.IH show ?case by simp
qed

lemma digit_value_digit_char: "d < 10 \<Longrightarrow> digit_value (digit_char d) = d"
  by (simp add: digit_value_def digit_char_def)

lemma digit_char_not_minus: "d < 10 \<Longrightarrow> digit_char d \<noteq> CHR ''-''"
proof
  assume d: "d < 10" and eq: "digit_char d = CHR ''-''"
  have "(of_char (digit_char d) :: nat) = of_char (CHR ''-'')" by (simp only: eq)
  moreover have "(of_char (digit_char d) :: nat) = 48 + d" using d by (simp add: digit_char_def)
  ultimately show False by simp
qed

lemma nat_of_digits_digits: "nat_of_digits (digits n) = n"
proof (induction n rule: digits.induct)
  case (1 n)
  show ?case
  proof (cases "n < 10")
    case True
    then show ?thesis
      by (subst digits.simps) (simp add: nat_of_digits_def digit_value_digit_char)
  next
    case False
    with 1 have "nat_of_digits (digits (n div 10)) = n div 10" by simp
    with False show ?thesis
      by (subst digits.simps) (simp add: nat_of_digits_def digit_value_digit_char)
  qed
qed

lemma hd_digits: "\<exists>d cs. d < 10 \<and> digits n = digit_char d # cs"
proof (induction n rule: digits.induct)
  case (1 n)
  show ?case
  proof (cases "n < 10")
    case True
    then show ?thesis by (subst digits.simps) auto
  next
    case False
    with 1 obtain d cs where "d < 10" "digits (n div 10) = digit_char d # cs" by blast
    with False show ?thesis by (subst digits.simps) auto
  qed
qed

lemma int_of_str_str_int: "int_of_str (str_int i) = i"
proof (cases "i < 0")
  case True
  then show ?thesis by (simp add: str_int_def int_of_str_def nat_of_digits_digits)
next
  case False
  obtain d cs where d: "d < 10" "digits (nat i) = digit_char d # cs" using hd_digits by blast
  have "nat_of_digits (digit_char d # cs) = nat i" using nat_of_digits_digits[of "nat i"] d by simp
  with False d show ?thesis
    by (simp add: str_int_def int_of_str_def digit_char_not_minus)
qed

lemma generate_csv_artifact:
  assumes "generate_csv e self od w1 = (Return self1, w2)"
  shows "\<exists>stored. result_file self1 = Some stored \<and> files w2 = files w1 @ [(stored, csv_file_content od)]"
  using assms by (auto simp: generate_csv_def Let_def split: option.splits if_splits)

text \<open>
  C5. The summary artifact starts with the header line and has one line per summary
  row, in order. Read back by a CSV reader, it gives the header and then, for each row,
  its four fields exactly: the serial number in decimal (which reads back as the same
  integer), the name, the input-URL string and the output-URL string. The rows written
  are those of the items in processing order, the last field being the item's output
  locations joined by commas, and the artifact stored is this content.
\<close>

theorem summary_artifact_round_trip:
  "csv_file_content output_data =
      ''Serial Number,Product Name,Input Image Urls,Output Image Urls'' @ [CR, LF]
        @ concat (map (\<lambda>r. writerow (row_fields r)) output_data)
   \<and> csv_reader (csv_file_content output_data) = (fieldnames # map row_fields output_data, None)
   \<and> int_of_str (str_int i) = i
   \<and> (process_products e ps fn [] w = (Return (fn1, od), w1)
        \<and> generate_csv e self od w1 = (Return self1, w2) \<longrightarrow>
        (\<exists>stored. result_file self1 = Some stored \<and> files w2 = files w1 @ [(stored, csv_file_content od)])
        \<and> map row_fields od =
            map (\<lambda>p. [str_int (serial_number p), name p, input_image_urls p,
                       join '','' (map (image_url e)
                         (filter (fetched_and_transcoded e) (split CHR '','' (input_image_urls p))))]) ps)"
proof (intro conjI impI)
  have h: "writerow fieldnames = ''Serial Number,Product Name,Input Image Urls,Output Image Urls'' @ [CR, LF]"
    by (simp add: writerow_def fieldnames_def write_field_def special_def)
  show "csv_file_content output_data =
      ''Serial Number,Product Name,Input Image Urls,Output Image Urls'' @ [CR, LF]
        @ concat (map (\<lambda>r. writerow (row_fields r)) output_data)"
    unfolding csv_file_content_def h by simp
  have "csv_file_content output_data = concat (map writerow (fieldnames # map row_fields output_data))"
    by (simp add: csv_file_content_def comp_def)
  thus "csv_reader (csv_file_content output_data) = (fieldnames # map row_fields output_data, None)"
    by (simp only: csv_reader_def read_writerows)
  show "int_of_str (str_int i) = i" by (rule int_of_str_str_int)
next
  assume a: "process_products e ps fn [] w = (Return (fn1, od), w1)
        \<and> generate_csv e self od w1 = (Return self1, w2)"
  from generate_csv_artifact[of e self od w1 self1 w2] a
  show "\<exists>stored. result_file self1 = Some stored \<and> files w2 = files w1 @ [(stored, csv_file_content od)]"
    by blast
  from process_products_Return[of e ps fn "[]" w fn1 od w1] a
  have "od = map (\<lambda>p. summary_of (processed_version e p)) ps" by simp
  thus "map row_fields od =
            map (\<lambda>p. [str_int (serial_number p), name p, input_image_urls p,
                       join '','' (map (image_url e)
                         (filter (fetched_and_transcoded e) (split CHR '','' (input_image_urls p))))]) ps"
    by (simp add: summary_of_def processed_version_def)
qed

theorem summary_artifact_round_trip_witness:
  "process_products env0 [camera] None [] world1 =
     (Return (Some ''compressed_b.jpg'',
        [(7, ''Camera'', ''http://x/a.jpg,http://x/huge.png,http://x/b.jpg'',
          ''/media/processed_images/compressed_a.jpg,/media/processed_images/compressed_b.jpg'')]),
      snd (process_products env0 [camera] None [] world1))
   \<and> generate_csv env0 job2
        [(7, ''Camera'', ''http://x/a.jpg,http://x/huge.png,http://x/b.jpg'',
          ''/media/processed_images/compressed_a.jpg,/media/processed_images/compressed_b.jpg'')]
        (snd (process_products env0 [camera] None [] world1)) =
     (Return (job2\<lparr>result_file := Some ''results/result_file.csv''\<rparr>),
      snd (generate_csv env0 job2
        [(7, ''Camera'', ''http://x/a.jpg,http://x/huge.png,http://x/b.jpg'',
          ''/media/processed_images/compressed_a.jpg,/media/processed_images/compressed_b.jpg'')]
        (snd (process_products env0 [camera] None [] world1))))
   \<and> csv_file_content
        [(7, ''Camera'', ''http://x/a.jpg,http://x/huge.png,http://x/b.jpg'',
          ''/media/processed_images/compressed_a.jpg,/media/processed_images/compressed_b.jpg'')] =
      ''Serial Number,Product Name,Input Image Urls,Output Image Urls'' @ [CR, LF]
        @ ''7,Camera,'' @ [DQ] @ ''http://x/a.jpg,http://x/huge.png,http://x/b.jpg'' @ [DQ]
        @ '','' @ [DQ]
        @ ''/media/processed_images/compressed_a.jpg,/media/processed_images/compressed_b.jpg''
        @ [DQ, CR, LF]
   \<and> csv_reader (csv_file_content
        [(7, ''Camera'', ''http://x/a.jpg,http://x/huge.png,http://x/b.jpg'',
          ''/media/processed_images/compressed_a.jpg,/media/processed_images/compressed_b.jpg'')]) =
      (fieldnames # map row_fields
        [(7, ''Camera'', ''http://x/a.jpg,http://x/huge.png,http://x/b.jpg'',
          ''/media/processed_images/compressed_a.jpg,/media/processed_images/compressed_b.jpg'')], None)
   \<and> int_of_str (str_int (- 20)) = - 20
   \<and> (\<exists>stored. result_file (job2\<lparr>result_file := Some ''results/result_file.csv''\<rparr>) = Some stored
        \<and> files (snd (generate_csv env0 job2
              [(7, ''Camera'', ''http://x/a.jpg,http://x/huge.png,http://x/b.jpg'',
                ''/media/processed_images/compressed_a.jpg,/media/processed_images/compressed_b.jpg'')]
              (snd (process_products env0 [camera] None [] world1))))
          = files (snd (process_products env0 [camera] None [] world1))
            @ [(stored, csv_file_content
                 [(7, ''Camera'', ''http://x/a.jpg,http://x/huge.png,http://x/b.jpg'',
                   ''/media/processed_images/compressed_a.jpg,/media/processed_images/compressed_b.jpg'')])])"
proof -
  let ?row = "(7 :: int, ''Camera'', ''http://x/a.jpg,http://x/huge.png,http://x/b.jpg'',
          ''/media/processed_images/compressed_a.jpg,/media/processed_images/compressed_b.jpg'')"
  have h1: "process_products env0 [camera] None [] world1 =
     (Return (Some ''compressed_b.jpg'', [?row]), snd (process_products env0 [camera] None [] world1))"
    by code_simp
  have h2: "generate_csv env0 job2 [?row] (snd (process_products env0 [camera] None [] world1)) =
     (Return (job2\<lparr>result_file := Some ''results/result_file.csv''\<rparr>),
      snd (generate_csv env0 job2 [?row] (snd (process_products env0 [camera] None [] world1))))"
    by code_simp
  have h3: "csv_file_content [?row] =
      ''Serial Number,Product Name,Input Image Urls,Output Image Urls'' @ [CR, LF]
        @ ''7,Camera,'' @ [DQ] @ ''http://x/a.jpg,http://x/huge.png,http://x/b.jpg'' @ [DQ]
        @ '','' @ [DQ]
        @ ''/media/processed_images/compressed_a.jpg,/media/processed_images/compressed_b.jpg''
        @ [DQ, CR, LF]"
    by code_simp
  from summary_artifact_round_trip[of "[?row]" "- 20" env0 "[camera]" None world1
      "Some ''compressed_b.jpg''" "[?row]" "snd (process_products env0 [camera] None [] world1)"
      job2 "job2\<lparr>result_file := Some ''results/result_file.csv''\<rparr>"
      "snd (generate_csv env0 job2 [?row] (snd (process_products env0 [camera] None [] world1)))"]
    h1 h2 h3
  show ?thesis by blast
qed

section \<open>The claims about the views\<close>

text \<open>
  Whatever the store holds, the status view answers a query that names a request with
  the same error response.
\<close>

lemma status_check_any:
  "status_check msgs w (Some rid) =
     (if rid = [] then ErrorAPIResponse (MISSING_REQUEST_ID msgs) (Some HTTP_400_BAD_REQUEST)
      else ErrorAPIResponse (STATUS_EXCEPTION msgs) None)"
  by (simp add: status_check_def serializer_data_def get_field_names_def declared_fields_def
      Meta_fields_def split: option.splits)

text \<open>
  C6. The claim: for an existing job the status query returns the job's identifier,
  creation time and completed flag, and the fields of each of its items. The
  serializer declares \<^verbatim>\<open>products\<close> without listing it, so asking for its data fails
  an assertion, and the view's \<^verbatim>\<open>except Exception\<close> turns that into the error
  response: for job 1, which exists, the response holds the error message only.
\<close>

theorem status_of_existing_job_is_an_error:
  "job_row world1 ''job-1'' = Some job1
   \<and> serializer_data job1 = Inl AssertionError
   \<and> status_check msgs0 world1 (Some ''job-1'') =
       \<lparr>data = [(''error'', JString (STATUS_EXCEPTION msgs0))], status = None\<rparr>"
  by code_simp

text \<open>
  C7. The claim: a status query for an unknown request is answered with a not-found
  error response. The \<^verbatim>\<open>Http404\<close> that \<^verbatim>\<open>get_object_or_404\<close> raises is caught by the
  view's own \<^verbatim>\<open>except Exception\<close>: the response carries the general status-check
  message and no status, and is the very response given for a job that exists.
\<close>

theorem status_of_unknown_job_is_not_404:
  "job_row world1 ''no-such-job'' = None
   \<and> status_check msgs0 world1 (Some ''no-such-job'') =
       \<lparr>data = [(''error'', JString (STATUS_EXCEPTION msgs0))], status = None\<rparr>
   \<and> status (status_check msgs0 world1 (Some ''no-such-job'')) \<noteq> Some HTTP_404_NOT_FOUND
   \<and> status_check msgs0 world1 (Some ''no-such-job'') = status_check msgs0 world1 (Some ''job-2'')"
  by code_simp








end
